theory Spec2Isabelle
  imports Complex_Main
begin

section \<open>Conventions of the embedding\<close>

text \<open>
  The program under study is \<^verbatim>\<open>create_banking_schema.py\<close>: a generator that fills a
  relational store with banks, customers, accounts, ownership rows, transactions, loans and
  payments, and plants a few anomalies at fixed positions.

  \<^item> Python's \<^verbatim>\<open>float\<close> values are read as exact real numbers; binary rounding is outside
    this model.
  \<^item> Dates are day numbers (\<open>int\<close>), timestamps are seconds (\<open>int\<close>); a \<^verbatim>\<open>timedelta\<close> is
    the corresponding number of days or seconds.
  \<^item> The pseudo-random source and the fake-data provider are an oracle: every generator
    receives, for each loop iteration, a record holding the raw values that the draws of that
    iteration consume. A raw value is a natural number; the functions below map it into the
    range of the library call, so every oracle value is a legal draw and every value of the
    range is reachable.
  \<^item> The wall clock (\<^verbatim>\<open>datetime.now()\<close>, \<^verbatim>\<open>date.today()\<close>) is an input as well.
  \<^item> A table is the list of its rows in row-id order, each row paired with its id; an
    unordered \<^verbatim>\<open>SELECT\<close> returns the rows in that order.
  \<^item> \<^verbatim>\<open>TEXT\<close> columns are strings, as in the source.
\<close>

datatype error = IndexError | ValueError | NameError | ZeroDivisionError | IntegrityError

subsection \<open>The random source\<close>

definition random_unit :: "nat \<Rightarrow> real" where
  \<comment> \<open>\<^verbatim>\<open>random.random()\<close>: a 53-bit integer scaled into the half-open unit interval\<close>
  "random_unit k = real (k mod 2 ^ 53) / 2 ^ 53"

definition uniform :: "real \<Rightarrow> real \<Rightarrow> nat \<Rightarrow> real" where
  \<comment> \<open>\<^verbatim>\<open>random.uniform(a, b)\<close> is \<^verbatim>\<open>a + (b - a) * random()\<close>\<close>
  "uniform a b k = a + (b - a) * random_unit k"

definition randint :: "nat \<Rightarrow> nat \<Rightarrow> nat \<Rightarrow> nat" where
  \<comment> \<open>\<^verbatim>\<open>random.randint(a, b)\<close> with \<open>a \<le> b\<close>: both ends included\<close>
  "randint a b k = a + k mod (b - a + 1)"

definition pick :: "'a list \<Rightarrow> nat \<Rightarrow> 'a" where
  \<comment> \<open>\<^verbatim>\<open>random.choice\<close> and \<^verbatim>\<open>random.choices(...)[0]\<close> on a literal, non-empty list
      (all weights in the source are positive, so every element can be drawn)\<close>
  "pick xs k = xs ! (k mod length xs)"

definition random_choice :: "'a list \<Rightarrow> nat \<Rightarrow> error + 'a" where
  \<comment> \<open>\<^verbatim>\<open>random.choice\<close> on a list read from the store: an empty list raises\<close>
  "random_choice xs k = (if xs = [] then Inl IndexError else Inr (pick xs k))"

subsection \<open>The store\<close>

type_synonym 'a table = "(nat \<times> 'a) list"

definition next_rowid :: "'a table \<Rightarrow> nat" where
  \<comment> \<open>an \<^verbatim>\<open>INTEGER PRIMARY KEY\<close> column left out of the insert takes the largest id plus one\<close>
  "next_rowid t = Suc (fold max (map fst t) 0)"

definition insert_many :: "'a table \<Rightarrow> 'a list \<Rightarrow> 'a table" where
  \<comment> \<open>\<^verbatim>\<open>executemany('INSERT INTO ...', rows)\<close>\<close>
  "insert_many t rows = t @ zip [next_rowid t ..< next_rowid t + length rows] rows"

fun sequence :: "(error + 'a) list \<Rightarrow> error + 'a list" where
  \<comment> \<open>a loop that builds a list stops at the first iteration that raises\<close>
  "sequence [] = Inr []"
| "sequence (x # xs) =
     (case x of Inl e \<Rightarrow> Inl e
      | Inr v \<Rightarrow> (case sequence xs of Inl e \<Rightarrow> Inl e | Inr vs \<Rightarrow> Inr (v # vs)))"

definition date_between :: "int \<Rightarrow> nat \<Rightarrow> nat \<Rightarrow> nat \<Rightarrow> int" where
  \<comment> \<open>\<^verbatim>\<open>fake.date_between(start_date, end_date)\<close> with the two ends given as days before
      today (\<open>lo \<ge> hi\<close>): a day between them, both ends included\<close>
  "date_between today lo hi k = today - int lo + int (k mod (lo - hi + 1))"

definition johnson_customers :: "nat list" where
  "johnson_customers = [101, 102, 103]"

section \<open>Data model\<close>

text \<open>
  One record per table, with the columns in the order of the tuples that the generators
  build. Columns of the customer table that no later stage reads (first name, date of birth,
  identity hash, e-mail, phone, onboarding date) are left out, and so are the credential and
  chat tables, which no other stage reads.
\<close>

record bank =
  bank_name :: string
  swift_code :: string
  country :: string
  headquarters_city :: string
  established_date :: string

record customer =
  last_name :: string
  address :: string
  city :: string
  state :: string
  zip_code :: string
  credit_score :: nat
  annual_income :: real
  employment_status :: string
  is_pep :: nat
  risk_rating :: string

record account =
  account_number :: nat
  a_bank_id :: nat
  account_type :: string
  balance :: real
  currency :: string
  opened_date :: int
  closed_date :: "int option"
  a_status :: string
  a_interest_rate :: real
  overdraft_limit :: nat

record ownership =
  o_account_id :: nat
  o_customer_id :: nat
  relationship_type :: string
  added_date :: int

record txn =
  t_account_id :: nat
  transaction_type :: string
  t_amount :: real
  balance_after :: real
  transaction_date :: int
  description :: string
  category :: string
  merchant_name :: string
  reference_number :: "int \<times> nat"
  related_transaction_id :: "nat option"
  location :: string
  ip_address :: string
  device_id :: nat
  is_flagged :: nat

record loan =
  l_customer_id :: nat
  l_bank_id :: nat
  loan_type :: string
  principal_amount :: real
  l_interest_rate :: real
  term_months :: nat
  monthly_payment :: real
  remaining_balance :: real
  origination_date :: int
  maturity_date :: int
  l_status :: string
  collateral_value :: "real option"
  collateral_type :: "string option"
  delinquency_days :: nat

record payment =
  p_loan_id :: nat
  payment_date :: int
  scheduled_date :: int
  p_amount :: real
  principal_paid :: real
  interest_paid :: real
  late_fee :: real
  payment_method :: string
  p_transaction_id :: "nat option"
  is_reversed :: nat
  reversal_reason :: "string option"

record db =
  banks :: "bank table"
  customers :: "customer table"
  accounts :: "account table"
  account_customers :: "ownership list"
  transactions :: "txn table"
  loans :: "loan table"
  payments :: "payment table"

definition empty_db :: db where
  "empty_db = \<lparr> banks = [], customers = [], accounts = [], account_customers = [],
                 transactions = [], loans = [], payments = [] \<rparr>"

section \<open>Banks\<close>

definition generate_banks :: "db \<Rightarrow> db" where
  "generate_banks s = s\<lparr> banks := insert_many (banks s)
     [ \<lparr> bank_name = ''First National Bank'', swift_code = ''FNBAUS33'', country = ''USA'',
         headquarters_city = ''New York'', established_date = ''1863-06-03'' \<rparr>,
       \<lparr> bank_name = ''Global Trust Bank'', swift_code = ''GTBKUS44'', country = ''USA'',
         headquarters_city = ''San Francisco'', established_date = ''1985-04-15'' \<rparr>,
       \<lparr> bank_name = ''Community Savings Bank'', swift_code = ''CSBKUS66'', country = ''USA'',
         headquarters_city = ''Chicago'', established_date = ''1924-11-20'' \<rparr>,
       \<lparr> bank_name = ''Digital First Bank'', swift_code = ''DFBKUS77'', country = ''USA'',
         headquarters_city = ''Austin'', established_date = ''2018-01-10'' \<rparr>,
       \<lparr> bank_name = ''Metropolitan Bank & Trust'', swift_code = ''MBTCUS22'', country = ''USA'',
         headquarters_city = ''Los Angeles'', established_date = ''1962-07-08'' \<rparr> ] \<rparr>"

section \<open>Customers\<close>

record cust_draw =
  cd_house :: nat        \<comment> \<open>\<^verbatim>\<open>random.randint(100, 105)\<close>\<close>
  cd_last_name :: string \<comment> \<open>\<^verbatim>\<open>fake.last_name()\<close>\<close>
  cd_city :: string
  cd_state :: string
  cd_address :: string
  cd_zip :: string
  cd_pep :: nat          \<comment> \<open>\<^verbatim>\<open>random.choice([0] * 99 + [1])\<close>\<close>
  cd_risk :: nat         \<comment> \<open>\<^verbatim>\<open>random.choice(['LOW'] * 70 + ...)\<close>\<close>
  cd_income :: nat       \<comment> \<open>\<^verbatim>\<open>random.uniform(25000, 250000)\<close>\<close>
  cd_credit :: nat       \<comment> \<open>\<^verbatim>\<open>random.randint(300, 850)\<close>\<close>
  cd_employment :: nat

fun str_nat :: "nat \<Rightarrow> string" where
  \<comment> \<open>the decimal digits of a number, as an f-string prints it\<close>
  "str_nat n = (if n < 10 then [char_of (48 + n)]
                else str_nat (n div 10) @ [char_of (48 + n mod 10)])"

definition customer_row :: "nat \<Rightarrow> cust_draw \<Rightarrow> customer" where
  \<comment> \<open>the body of the loop of \<^verbatim>\<open>generate_customers\<close> at ordinal position \<open>i\<close>\<close>
  "customer_row i d =
    (let cluster = (i \<in> set [101, 102, 103]);
         outlier = (i = 249)
     in \<lparr> last_name = (if cluster then ''Johnson'' else cd_last_name d),
          address = (if cluster then str_nat (randint 100 105 (cd_house d)) @ '' Oak Street''
                     else cd_address d),
          city = (if cluster then ''Miami'' else cd_city d),
          state = (if cluster then ''FL'' else cd_state d),
          zip_code = (if cluster then ''33101'' else cd_zip d),
          credit_score = randint 300 850 (cd_credit d),
          annual_income = (if outlier then 15000000 else uniform 25000 250000 (cd_income d)),
          employment_status =
            pick [''EMPLOYED'', ''SELF_EMPLOYED'', ''RETIRED'', ''STUDENT'', ''UNEMPLOYED'']
                 (cd_employment d),
          is_pep = (if outlier then 1 else pick (replicate 99 0 @ [1]) (cd_pep d)),
          risk_rating =
            (if outlier then ''HIGH''
             else pick (replicate 70 ''LOW'' @ replicate 25 ''MEDIUM'' @ replicate 5 ''HIGH'')
                       (cd_risk d)) \<rparr>)"

definition customer_rows :: "nat \<Rightarrow> (nat \<Rightarrow> cust_draw) \<Rightarrow> customer list" where
  "customer_rows count orc = map (\<lambda>i. customer_row i (orc i)) [0 ..< count]"

definition generate_customers :: "db \<Rightarrow> nat \<Rightarrow> (nat \<Rightarrow> cust_draw) \<Rightarrow> db" where
  "generate_customers s count orc =
     s\<lparr> customers := insert_many (customers s) (customer_rows count orc) \<rparr>"

section \<open>Accounts and ownership\<close>

record acct_draw =
  ad_bank :: nat
  ad_type :: nat
  ad_balance :: nat
  ad_opened :: nat
  ad_rate :: nat
  ad_overdraft :: nat

record acct_oracle =
  ao_count :: "nat \<Rightarrow> nat"              \<comment> \<open>per customer: \<^verbatim>\<open>random.choices([1, 2, 3, 4], ...)\<close>\<close>
  ao_account :: "nat \<Rightarrow> nat \<Rightarrow> acct_draw"  \<comment> \<open>per customer and account\<close>
  ao_primary :: "nat \<Rightarrow> nat"            \<comment> \<open>per account: date of the PRIMARY row\<close>
  ao_joint :: "nat \<Rightarrow> nat"              \<comment> \<open>per cluster member: date of the JOINT row\<close>

definition account_balance :: "nat \<Rightarrow> nat \<Rightarrow> acct_draw \<Rightarrow> real" where
  \<comment> \<open>\<^verbatim>\<open>balance\<close>: pinned for the first account generated for customer 250\<close>
  "account_balance customer_id j d =
     (if customer_id = 250
      then (if j = 0 then 5000000 else uniform 1000 50000 (ad_balance d))
      else uniform 100 100000 (ad_balance d))"

definition account_rate :: "string \<Rightarrow> acct_draw \<Rightarrow> real" where
  "account_rate atype d =
     (if atype = ''SAVINGS'' then uniform 0.01 0.05 (ad_rate d)
      else if atype = ''MONEY_MARKET'' then uniform 0.02 0.06 (ad_rate d)
      else if atype = ''CD'' then uniform 0.03 0.07 (ad_rate d)
      else 0)"

definition account_overdraft :: "string \<Rightarrow> acct_draw \<Rightarrow> nat" where
  "account_overdraft atype d =
     (if atype = ''CHECKING'' then pick [0, 500, 1000] (ad_overdraft d) else 0)"

definition account_row ::
    "int \<Rightarrow> nat list \<Rightarrow> nat \<Rightarrow> nat \<Rightarrow> nat \<Rightarrow> acct_draw \<Rightarrow> error + account" where
  \<comment> \<open>the body of the inner loop of \<^verbatim>\<open>generate_accounts\<close>: customer at position \<open>i\<close>, its
      \<open>j\<close>-th account\<close>
  "account_row today bank_ids i customer_id j d =
    (case random_choice bank_ids (ad_bank d) of
       Inl e \<Rightarrow> Inl e
     | Inr bank_id \<Rightarrow>
        (let atype = pick [''CHECKING'', ''SAVINGS'', ''MONEY_MARKET'', ''CD''] (ad_type d)
         in Inr \<lparr> account_number = 1000000000 + i * 10 + j,
                   a_bank_id = bank_id,
                   account_type = atype,
                   balance = account_balance customer_id j d,
                   currency = ''USD'',
                   opened_date = date_between today 1825 0 (ad_opened d),
                   closed_date = None,
                   a_status = ''ACTIVE'',
                   a_interest_rate = account_rate atype d,
                   overdraft_limit = account_overdraft atype d \<rparr>))"

definition account_rows ::
    "int \<Rightarrow> nat list \<Rightarrow> nat list \<Rightarrow> acct_oracle \<Rightarrow> error + account list" where
  \<comment> \<open>the two nested loops that build the list \<^verbatim>\<open>accounts\<close>\<close>
  "account_rows today bank_ids customer_ids orc =
     sequence (concat (map (\<lambda>(i, customer_id).
                 map (\<lambda>j. account_row today bank_ids i customer_id j (ao_account orc i j))
                     [0 ..< pick [1, 2, 3, 4] (ao_count orc i)])
               (enumerate 0 customer_ids)))"

definition primary_rows :: "int \<Rightarrow> nat list \<Rightarrow> nat list \<Rightarrow> acct_oracle \<Rightarrow> ownership list" where
  \<comment> \<open>\<^verbatim>\<open>customer_id = customer_ids[i % len(customer_ids)]\<close> for the \<open>i\<close>-th account id\<close>
  "primary_rows today account_ids customer_ids orc =
     map (\<lambda>(i, account_id).
            \<lparr> o_account_id = account_id,
              o_customer_id = customer_ids ! (i mod length customer_ids),
              relationship_type = ''PRIMARY'',
              added_date = date_between today 1825 0 (ao_primary orc i) \<rparr>)
         (enumerate 0 account_ids)"

definition joint_rows :: "int \<Rightarrow> nat \<Rightarrow> acct_oracle \<Rightarrow> ownership list" where
  "joint_rows today joint_account_id orc =
     map (\<lambda>(k, cust_id).
            \<lparr> o_account_id = joint_account_id,
              o_customer_id = cust_id,
              relationship_type = ''JOINT'',
              added_date = date_between today 730 0 (ao_joint orc k) \<rparr>)
         (enumerate 0 johnson_customers)"

definition same_key :: "ownership \<Rightarrow> ownership \<Rightarrow> bool" where
  \<comment> \<open>the composite primary key of the ownership table\<close>
  "same_key x y \<longleftrightarrow> o_account_id x = o_account_id y \<and> o_customer_id x = o_customer_id y"

definition insert_or_ignore :: "ownership list \<Rightarrow> ownership list \<Rightarrow> ownership list" where
  \<comment> \<open>\<^verbatim>\<open>executemany('INSERT OR IGNORE INTO account_customers ...', rows)\<close>: a row whose key
      is already present is dropped\<close>
  "insert_or_ignore t rows =
     fold (\<lambda>r acc. if list_ex (same_key r) acc then acc else acc @ [r]) rows t"

definition generate_accounts :: "db \<Rightarrow> int \<Rightarrow> acct_oracle \<Rightarrow> error + db" where
  "generate_accounts s today orc =
    (let customer_ids = map fst (customers s);
         bank_ids = map fst (banks s)
     in case account_rows today bank_ids customer_ids orc of
          Inl e \<Rightarrow> Inl e
        | Inr rows \<Rightarrow>
           let tbl = insert_many (accounts s) rows;
               account_ids = map fst tbl
           in if account_ids \<noteq> [] \<and> customer_ids = [] then Inl ZeroDivisionError
              else if length account_ids \<le> 150 then Inl IndexError
              else if \<not> set johnson_customers \<subseteq> set customer_ids then Inl IntegrityError
              else Inr (s\<lparr> accounts := tbl,
                           account_customers :=
                             insert_or_ignore (account_customers s)
                               (primary_rows today account_ids customer_ids orc
                                @ joint_rows today (account_ids ! 150) orc) \<rparr>))"

section \<open>Transactions\<close>

record txn_draw =
  td_account :: nat     \<comment> \<open>\<^verbatim>\<open>random.choice(accounts)\<close>\<close>
  td_amount :: nat
  td_location :: nat
  td_type :: nat
  td_category :: nat
  td_merchant :: nat
  td_date :: nat        \<comment> \<open>\<^verbatim>\<open>fake.date_time_between(start_date='-1y', end_date='now')\<close>\<close>
  td_city :: string
  td_state :: string
  td_ip :: string
  td_device :: nat

definition categories :: "(string \<times> string list) list" where
  "categories =
    [ (''GROCERIES'', [''Whole Foods'', ''Kroger'', ''Safeway'', ''Trader Joes'']),
      (''UTILITIES'', [''Electric Company'', ''Water Department'', ''Gas Company'', ''Internet Provider'']),
      (''ENTERTAINMENT'', [''Netflix'', ''Spotify'', ''AMC Theaters'', ''Live Nation'']),
      (''DINING'', [''Starbucks'', ''McDonalds'', ''Chipotle'', ''Local Restaurant'']),
      (''SHOPPING'', [''Amazon'', ''Target'', ''Walmart'', ''Best Buy'']),
      (''TRANSPORTATION'', [''Uber'', ''Shell Gas'', ''Chevron'', ''Public Transit'']),
      (''HEALTHCARE'', [''CVS Pharmacy'', ''Walgreens'', ''Medical Center'', ''Dental Office'']),
      (''EDUCATION'', [''University'', ''Online Course Platform'', ''Bookstore'']),
      (''TRAVEL'', [''Delta Airlines'', ''Marriott Hotels'', ''Airbnb'', ''Expedia'']),
      (''FINANCIAL'', [''ATM Withdrawal'', ''Wire Transfer'', ''Investment Transfer'']) ]"

definition active_accounts :: "db \<Rightarrow> (nat \<times> real) list" where
  \<comment> \<open>\<^verbatim>\<open>SELECT account_id, balance FROM accounts WHERE status = "ACTIVE"\<close>\<close>
  "active_accounts s =
     map (\<lambda>row. (fst row, balance (snd row)))
         (filter (\<lambda>row. a_status (snd row) = ''ACTIVE'') (accounts s))"

definition customer_250_accounts :: "db \<Rightarrow> nat list" where
  \<comment> \<open>\<^verbatim>\<open>SELECT a.account_id FROM accounts a JOIN account_customers ac
      ON a.account_id = ac.account_id WHERE ac.customer_id = 250\<close>\<close>
  "customer_250_accounts s =
     concat (map (\<lambda>row. map (\<lambda>ac. fst row)
                           (filter (\<lambda>ac. o_account_id ac = fst row \<and> o_customer_id ac = 250)
                                   (account_customers s)))
                 (accounts s))"

fun find_account :: "(nat \<times> real) list \<Rightarrow> nat \<Rightarrow> (nat \<times> real) option" where
  \<comment> \<open>\<^verbatim>\<open>for acc_id, bal in accounts: if acc_id == target: ...; break\<close>\<close>
  "find_account [] target = None"
| "find_account (p # ps) target = (if fst p = target then Some p else find_account ps target)"

definition in_window :: "nat \<Rightarrow> nat list \<Rightarrow> bool" where
  \<comment> \<open>\<^verbatim>\<open>i >= 2000 and i <= 2050 and customer_250_accounts\<close>\<close>
  "in_window i c250 \<longleftrightarrow> 2000 \<le> i \<and> i \<le> 2050 \<and> c250 \<noteq> []"

definition select_account ::
    "(nat \<times> real) list \<Rightarrow> nat list \<Rightarrow> nat \<Rightarrow> txn_draw \<Rightarrow> (nat \<times> real) option
     \<Rightarrow> error + (nat \<times> real)" where
  \<comment> \<open>the first \<^verbatim>\<open>if\<close> of the loop body. The variables \<^verbatim>\<open>account_id\<close> and
      \<^verbatim>\<open>current_balance\<close> keep the values of the previous iteration (\<open>prev\<close>) when the search
      finds nothing, and are unbound if there was no previous iteration.\<close>
  "select_account accts c250 i d prev =
    (if in_window i c250 then
       (case find_account accts (hd c250) of
          Some p \<Rightarrow> Inr p
        | None \<Rightarrow> (case prev of Some p \<Rightarrow> Inr p | None \<Rightarrow> Inl NameError))
     else random_choice accts (td_account d))"

definition suspicious :: "nat list \<Rightarrow> nat \<Rightarrow> nat \<Rightarrow> bool" where
  \<comment> \<open>\<^verbatim>\<open>i >= 2000 and i <= 2050 and customer_250_accounts and
      account_id == customer_250_accounts[0]\<close>\<close>
  "suspicious c250 i account_id \<longleftrightarrow> in_window i c250 \<and> account_id = hd c250"

definition txn_type :: "bool \<Rightarrow> txn_draw \<Rightarrow> string" where
  "txn_type susp d =
     (if susp then ''WITHDRAWAL''
      else pick (replicate 15 ''DEPOSIT'' @ replicate 60 ''WITHDRAWAL''
                 @ replicate 20 ''TRANSFER'' @ replicate 3 ''FEE''
                 @ replicate 2 ''INTEREST'') (td_type d))"

definition txn_amount :: "bool \<Rightarrow> string \<Rightarrow> txn_draw \<Rightarrow> real" where
  "txn_amount susp ttype d =
     (if susp then uniform 495 499 (td_amount d)
      else if ttype = ''DEPOSIT'' then uniform 500 5000 (td_amount d)
      else if ttype = ''WITHDRAWAL'' then uniform 10 500 (td_amount d)
      else if ttype = ''TRANSFER'' then uniform 100 2000 (td_amount d)
      else if ttype = ''FEE'' then pick [5, 10, 15, 25, 35] (td_amount d)
      else uniform 0.01 50 (td_amount d))"

definition txn_category :: "bool \<Rightarrow> string \<Rightarrow> txn_draw \<Rightarrow> string" where
  \<comment> \<open>only an ordinary withdrawal draws \<^verbatim>\<open>random.choice(list(categories.keys()))\<close>\<close>
  "txn_category susp ttype d =
     (if \<not> susp \<and> ttype = ''WITHDRAWAL'' then fst (pick categories (td_category d))
      else ''FINANCIAL'')"

definition txn_merchant :: "bool \<Rightarrow> string \<Rightarrow> txn_draw \<Rightarrow> string" where
  \<comment> \<open>for an ordinary withdrawal \<^verbatim>\<open>random.choice(categories[category])\<close>\<close>
  "txn_merchant susp ttype d =
     (if susp then ''ATM Withdrawal''
      else if ttype = ''DEPOSIT'' then ''Direct Deposit''
      else if ttype = ''WITHDRAWAL'' then pick (snd (pick categories (td_category d))) (td_merchant d)
      else if ttype = ''TRANSFER'' then ''Internal Transfer''
      else if ttype = ''FEE'' then ''Bank Fee''
      else ''Interest Payment'')"

definition txn_balance_after :: "string \<Rightarrow> real \<Rightarrow> real \<Rightarrow> real" where
  \<comment> \<open>\<^verbatim>\<open>if transaction_type in ['DEPOSIT', 'INTEREST']: current_balance + amount\<close>, else minus\<close>
  "txn_balance_after ttype current_balance amount =
     (if ttype \<in> set [''DEPOSIT'', ''INTEREST''] then current_balance + amount
      else current_balance - amount)"

definition txn_date :: "bool \<Rightarrow> int \<Rightarrow> nat \<Rightarrow> txn_draw \<Rightarrow> int" where
  \<comment> \<open>\<^verbatim>\<open>datetime.now() - timedelta(days=30, hours=i-2000)\<close>, or a time in the past year\<close>
  "txn_date susp now i d =
     (if susp then now - (30 * 86400 + (int i - 2000) * 3600)
      else now - int (td_date d mod (365 * 86400 + 1)))"

definition txn_location :: "bool \<Rightarrow> txn_draw \<Rightarrow> string" where
  "txn_location susp d =
     (if susp then pick [''Miami, FL'', ''New York, NY'', ''Los Angeles, CA''] (td_location d)
      else td_city d @ '', '' @ td_state d)"

definition transaction_row ::
    "nat list \<Rightarrow> int \<Rightarrow> nat \<Rightarrow> txn_draw \<Rightarrow> nat \<times> real \<Rightarrow> txn" where
  \<comment> \<open>the rest of the loop body, for the selected \<^verbatim>\<open>(account_id, current_balance)\<close>; \<open>now\<close> is
      the clock reading of this iteration\<close>
  "transaction_row c250 now i d sel =
    (let account_id = fst sel; current_balance = snd sel;
         susp = suspicious c250 i account_id;
         ttype = txn_type susp d;
         amount = txn_amount susp ttype d;
         merchant = txn_merchant susp ttype d
     in \<lparr> t_account_id = account_id,
          transaction_type = ttype,
          t_amount = amount,
          balance_after = txn_balance_after ttype current_balance amount,
          transaction_date = txn_date susp now i d,
          description = ttype @ '' - '' @ merchant,
          category = txn_category susp ttype d,
          merchant_name = merchant,
          reference_number = (now div 86400, i),
          related_transaction_id = None,
          location = txn_location susp d,
          ip_address = td_ip d,
          device_id = randint 1000 9999 (td_device d),
          is_flagged = (if susp then 1 else 0) \<rparr>)"

fun txn_loop ::
    "(nat \<times> real) list \<Rightarrow> nat list \<Rightarrow> (nat \<Rightarrow> int) \<Rightarrow> (nat \<Rightarrow> txn_draw) \<Rightarrow> nat list
     \<Rightarrow> (nat \<times> real) option \<Rightarrow> error + txn list" where
  \<comment> \<open>\<^verbatim>\<open>for i in range(count)\<close>, with the selection of the previous iteration carried along\<close>
  "txn_loop accts c250 clock orc [] prev = Inr []"
| "txn_loop accts c250 clock orc (i # rest) prev =
    (case select_account accts c250 i (orc i) prev of
       Inl e \<Rightarrow> Inl e
     | Inr sel \<Rightarrow>
        (case txn_loop accts c250 clock orc rest (Some sel) of
           Inl e \<Rightarrow> Inl e
         | Inr ts \<Rightarrow> Inr (transaction_row c250 (clock i) i (orc i) sel # ts)))"

definition transaction_rows ::
    "db \<Rightarrow> nat \<Rightarrow> (nat \<Rightarrow> int) \<Rightarrow> (nat \<Rightarrow> txn_draw) \<Rightarrow> error + txn list" where
  "transaction_rows s count clock orc =
     txn_loop (active_accounts s) (customer_250_accounts s) clock orc [0 ..< count] None"

definition generate_transactions ::
    "db \<Rightarrow> nat \<Rightarrow> (nat \<Rightarrow> int) \<Rightarrow> (nat \<Rightarrow> txn_draw) \<Rightarrow> error + db" where
  "generate_transactions s count clock orc =
    (case transaction_rows s count clock orc of
       Inl e \<Rightarrow> Inl e
     | Inr ts \<Rightarrow> Inr (s\<lparr> transactions := insert_many (transactions s) ts \<rparr>))"

section \<open>Loans\<close>

record loan_draw =
  ld_type :: nat
  ld_bank :: nat
  ld_principal :: nat
  ld_term :: nat
  ld_rate :: nat
  ld_orig :: nat        \<comment> \<open>\<^verbatim>\<open>fake.date_between(start_date='-5y', end_date='-6m')\<close>: in the
                            date syntax of the provider \<open>m\<close> is minutes, so the range ends on the
                            day of the run\<close>
  ld_delinq :: nat

record loan_oracle =
  lo_sample :: "nat \<Rightarrow> nat"        \<comment> \<open>the draws of \<^verbatim>\<open>random.sample(customers, 200)\<close>\<close>
  lo_loan :: "nat \<Rightarrow> loan_draw"    \<comment> \<open>per sampled customer\<close>

fun sample_from :: "'a list \<Rightarrow> nat list \<Rightarrow> 'a list" where
  \<comment> \<open>the selection loop of \<^verbatim>\<open>random.sample\<close> on a pool: take the element at the drawn
      position and move the last element of the pool into its place\<close>
  "sample_from pool [] = []"
| "sample_from pool (r # rs) =
     (let j = r mod length pool
      in pool ! j # sample_from (butlast (pool[j := last pool])) rs)"

definition random_sample :: "'a list \<Rightarrow> nat \<Rightarrow> (nat \<Rightarrow> nat) \<Rightarrow> error + 'a list" where
  \<comment> \<open>\<^verbatim>\<open>random.sample(population, k)\<close>: a larger sample than the population raises\<close>
  "random_sample population k rs =
     (if k > length population then Inl ValueError
      else Inr (sample_from population (map rs [0 ..< k])))"

definition amortization :: "real \<Rightarrow> real \<Rightarrow> nat \<Rightarrow> error + real" where
  \<comment> \<open>\<^verbatim>\<open>monthly_rate = interest_rate / 12\<close> and
      \<^verbatim>\<open>(principal * monthly_rate * (1 + monthly_rate)**term_months) /
      ((1 + monthly_rate)**term_months - 1)\<close>\<close>
  "amortization princ rate term =
     (let monthly_rate = rate / 12;
          denominator = (1 + monthly_rate) ^ term - 1
      in if denominator = 0 then Inl ZeroDivisionError
         else Inr ((princ * monthly_rate * (1 + monthly_rate) ^ term) / denominator))"

definition loan_kind :: "nat \<Rightarrow> loan_draw \<Rightarrow> string" where
  \<comment> \<open>the eligible \<^verbatim>\<open>loan_types\<close> of a credit score and \<^verbatim>\<open>random.choice(loan_types)\<close>\<close>
  "loan_kind score d =
     pick (if score \<ge> 750 then [''MORTGAGE'', ''AUTO'', ''PERSONAL'']
           else if score \<ge> 650 then [''AUTO'', ''PERSONAL'']
           else [''PERSONAL'']) (ld_type d)"

definition interest_rate_base :: "nat \<Rightarrow> real" where
  "interest_rate_base score = (if score \<ge> 750 then 0.03 else if score \<ge> 650 then 0.05 else 0.08)"

definition loan_principal :: "string \<Rightarrow> loan_draw \<Rightarrow> real" where
  "loan_principal ltype d =
     (if ltype = ''MORTGAGE'' then uniform 150000 1000000 (ld_principal d)
      else if ltype = ''AUTO'' then uniform 15000 75000 (ld_principal d)
      else uniform 5000 50000 (ld_principal d))"

definition loan_term :: "string \<Rightarrow> loan_draw \<Rightarrow> nat" where
  "loan_term ltype d =
     (if ltype = ''MORTGAGE'' then pick [180, 360] (ld_term d)
      else if ltype = ''AUTO'' then pick [36, 48, 60, 72] (ld_term d)
      else pick [12, 24, 36, 48, 60] (ld_term d))"

definition loan_rate :: "nat \<Rightarrow> string \<Rightarrow> loan_draw \<Rightarrow> real" where
  "loan_rate score ltype d =
     interest_rate_base score
     + (if ltype = ''MORTGAGE'' then uniform 0 0.02 (ld_rate d)
        else if ltype = ''AUTO'' then uniform 0.01 0.03 (ld_rate d)
        else uniform 0.02 0.05 (ld_rate d))"

definition loan_delinquency :: "nat \<Rightarrow> loan_draw \<Rightarrow> nat" where
  \<comment> \<open>\<^verbatim>\<open>delinquency_days\<close> in the two branches of \<^verbatim>\<open>if customer_id in [101, 102, 103]\<close>\<close>
  "loan_delinquency customer_id d =
     (if customer_id \<in> set [101, 102, 103] then randint 30 90 (ld_delinq d)
      else pick [0, 0, 0, 0, 15, 30] (ld_delinq d))"

definition loan_status :: "nat \<Rightarrow> nat \<Rightarrow> string" where
  \<comment> \<open>\<^verbatim>\<open>status\<close> in the two branches\<close>
  "loan_status customer_id days =
     (if customer_id \<in> set [101, 102, 103]
      then (if days > 60 then ''DEFAULTED'' else ''ACTIVE'')
      else (if days < 60 then ''ACTIVE'' else ''DEFAULTED''))"

definition loan_remaining :: "int \<Rightarrow> nat \<Rightarrow> real \<Rightarrow> nat \<Rightarrow> int \<Rightarrow> real" where
  \<comment> \<open>\<^verbatim>\<open>remaining_balance\<close> in the two branches\<close>
  "loan_remaining today customer_id princ term orig =
     (if customer_id \<in> set [101, 102, 103] then princ * 0.85
      else let months_elapsed = (today - orig) div 30
           in if months_elapsed > 0
              then princ * (1 - min (real_of_int months_elapsed) (real term * 0.3) / real term)
              else princ)"

definition loan_row :: "int \<Rightarrow> nat list \<Rightarrow> nat \<times> nat \<times> real \<Rightarrow> loan_draw \<Rightarrow> error + loan" where
  \<comment> \<open>the body of the loop of \<^verbatim>\<open>generate_loans\<close> for one sampled
      \<^verbatim>\<open>(customer_id, credit_score, annual_income)\<close>\<close>
  "loan_row today bank_ids cust d =
    (let customer_id = fst cust; score = fst (snd cust);
         ltype = loan_kind score d
     in case random_choice bank_ids (ld_bank d) of
          Inl e \<Rightarrow> Inl e
        | Inr bank_id \<Rightarrow>
          (let princ = loan_principal ltype d;
               term = loan_term ltype d;
               rate = loan_rate score ltype d
           in (case amortization princ rate term of
                Inl e \<Rightarrow> Inl e
              | Inr payment \<Rightarrow>
                (let orig = date_between today 1825 0 (ld_orig d);
                     days = loan_delinquency customer_id d
                 in Inr \<lparr> l_customer_id = customer_id,
                           l_bank_id = bank_id,
                           loan_type = ltype,
                           principal_amount = princ,
                           l_interest_rate = rate,
                           term_months = term,
                           monthly_payment = payment,
                           remaining_balance = loan_remaining today customer_id princ term orig,
                           origination_date = orig,
                           maturity_date = orig + int term * 30,
                           l_status = loan_status customer_id days,
                           collateral_value =
                             (if ltype \<in> set [''MORTGAGE'', ''AUTO''] then Some (princ * 1.2)
                              else None),
                           collateral_type =
                             (if ltype = ''MORTGAGE'' then Some ''REAL_ESTATE''
                              else if ltype = ''AUTO'' then Some ''VEHICLE'' else None),
                           delinquency_days = days \<rparr>))))"

definition loan_customers :: "db \<Rightarrow> (nat \<times> nat \<times> real) list" where
  \<comment> \<open>\<^verbatim>\<open>SELECT customer_id, credit_score, annual_income FROM customers\<close>\<close>
  "loan_customers s =
     map (\<lambda>row. (fst row, credit_score (snd row), annual_income (snd row))) (customers s)"

definition loan_rows :: "db \<Rightarrow> int \<Rightarrow> loan_oracle \<Rightarrow> error + loan list" where
  "loan_rows s today orc =
    (case random_sample (loan_customers s) 200 (lo_sample orc) of
       Inl e \<Rightarrow> Inl e
     | Inr sampled \<Rightarrow>
        sequence (map (\<lambda>(k, cust). loan_row today (map fst (banks s)) cust (lo_loan orc k))
                      (enumerate 0 sampled)))"

definition generate_loans :: "db \<Rightarrow> int \<Rightarrow> loan_oracle \<Rightarrow> error + db" where
  "generate_loans s today orc =
    (case loan_rows s today orc of
       Inl e \<Rightarrow> Inl e
     | Inr rows \<Rightarrow> Inr (s\<lparr> loans := insert_many (loans s) rows \<rparr>))"

section \<open>Payments\<close>

record pay_draw =
  pd_skip :: nat      \<comment> \<open>\<^verbatim>\<open>random.random()\<close>\<close>
  pd_days :: nat      \<comment> \<open>\<^verbatim>\<open>random.randint(15, 45)\<close>\<close>
  pd_frac :: nat      \<comment> \<open>\<^verbatim>\<open>random.uniform(0.5, 0.8)\<close>\<close>
  pd_late :: nat      \<comment> \<open>\<^verbatim>\<open>random.choices([0, 0, 0, 3, 7, 15], ...)\<close>\<close>
  pd_method :: nat    \<comment> \<open>\<^verbatim>\<open>random.choice(['AUTO_DEBIT', ...])\<close>\<close>

definition make_payment ::
    "nat \<Rightarrow> nat \<Rightarrow> int \<Rightarrow> int \<Rightarrow> real \<Rightarrow> real \<Rightarrow> pay_draw \<Rightarrow> payment" where
  \<comment> \<open>the part of the loop body after the two behaviours: the split of the amount, the
      reversal and the tuple\<close>
  "make_payment loan_id month pay_date scheduled amount fee d =
    (let interest = amount * 0.3;
         princ = amount * 0.7 - fee;
         rev_flag = (loan_id = 150 \<and> month = 15)
     in \<lparr> p_loan_id = loan_id,
          payment_date = pay_date,
          scheduled_date = scheduled,
          p_amount = amount,
          principal_paid = princ,
          interest_paid = interest,
          late_fee = fee,
          payment_method = pick [''AUTO_DEBIT'', ''ONLINE'', ''CHECK'', ''CASH''] (pd_method d),
          p_transaction_id = None,
          is_reversed = (if rev_flag then 1 else 0),
          reversal_reason =
            (if rev_flag then Some ''Insufficient funds - payment reversed after 3 days''
             else None) \<rparr>)"

definition payment_row :: "nat \<Rightarrow> loan \<Rightarrow> nat \<Rightarrow> pay_draw \<Rightarrow> payment option" where
  \<comment> \<open>the body of the inner loop of \<^verbatim>\<open>generate_payments\<close>; \<open>None\<close> is \<^verbatim>\<open>continue\<close>\<close>
  "payment_row loan_id l month d =
    (let scheduled = origination_date l + int month * 30
     in if l_customer_id l \<in> set [101, 102, 103] \<and> month > 12 then
          (if random_unit (pd_skip d) > 0.5 then None
           else Some (make_payment loan_id month
                        (scheduled + int (randint 15 45 (pd_days d))) scheduled
                        (monthly_payment l * uniform 0.5 0.8 (pd_frac d)) 50 d))
        else
          (let days_late = pick [0, 0, 0, 3, 7, 15] (pd_late d)
           in Some (make_payment loan_id month (scheduled + int days_late) scheduled
                      (monthly_payment l) (if days_late > 5 then 25 else 0) d)))"

definition months_since_origination :: "int \<Rightarrow> loan \<Rightarrow> int" where
  \<comment> \<open>\<^verbatim>\<open>(datetime.date.today() - origination_date).days // 30\<close>; both round towards minus
      infinity\<close>
  "months_since_origination today l = (today - origination_date l) div 30"

definition loan_payments :: "int \<Rightarrow> (nat \<Rightarrow> pay_draw) \<Rightarrow> nat \<times> loan \<Rightarrow> payment list" where
  \<comment> \<open>\<^verbatim>\<open>for month in range(min(months_since_origination, 36))\<close>\<close>
  "loan_payments today ds row =
     List.map_filter (\<lambda>month. payment_row (fst row) (snd row) month (ds month))
       [0 ..< nat (min (months_since_origination today (snd row)) 36)]"

definition selected_loans :: "loan table \<Rightarrow> loan table" where
  \<comment> \<open>\<^verbatim>\<open>SELECT ... FROM loans WHERE status IN ('ACTIVE', 'DEFAULTED')\<close>\<close>
  "selected_loans t = filter (\<lambda>row. l_status (snd row) \<in> set [''ACTIVE'', ''DEFAULTED'']) t"

definition payment_rows :: "loan table \<Rightarrow> int \<Rightarrow> (nat \<Rightarrow> nat \<Rightarrow> pay_draw) \<Rightarrow> payment list" where
  \<comment> \<open>the list \<^verbatim>\<open>payments\<close> built by the outer loop; \<open>orc k\<close> serves the \<open>k\<close>-th selected loan\<close>
  "payment_rows t today orc =
     concat (map (\<lambda>(k, row). loan_payments today (orc k) row)
                 (enumerate 0 (selected_loans t)))"


section \<open>The whole run\<close>



section \<open>Notions used in the statements\<close>

definition reversed :: "payment \<Rightarrow> bool" where
  "reversed p \<longleftrightarrow> is_reversed p = 1"

definition reversed_rows :: "payment list \<Rightarrow> payment list" where
  "reversed_rows ps = filter reversed ps"

definition rowids :: "nat \<Rightarrow> nat list" where
  \<comment> \<open>the ids that an empty table gives to \<open>n\<close> inserted rows\<close>
  "rowids n = [1 ..< Suc n]"

definition okey :: "ownership \<Rightarrow> nat \<times> nat" where
  \<comment> \<open>the key of an ownership row\<close>
  "okey r = (o_account_id r, o_customer_id r)"

definition is_joint :: "ownership \<Rightarrow> bool" where
  "is_joint r \<longleftrightarrow> relationship_type r = ''JOINT''"

definition is_primary :: "ownership \<Rightarrow> bool" where
  "is_primary r \<longleftrightarrow> relationship_type r = ''PRIMARY''"

definition owners_of :: "db \<Rightarrow> nat \<Rightarrow> ownership list" where
  \<comment> \<open>the ownership rows of one account\<close>
  "owners_of s a = filter (\<lambda>r. o_account_id r = a) (account_customers s)"

definition stored_balances :: "db \<Rightarrow> (nat \<times> real) list" where
  \<comment> \<open>the balance column of the account table\<close>
  "stored_balances s = map (\<lambda>row. (fst row, balance (snd row))) (accounts s)"

definition stored_balance :: "db \<Rightarrow> nat \<Rightarrow> real option" where
  \<comment> \<open>the stored balance of the account with a given id\<close>
  "stored_balance s a = map_of (stored_balances s) a"


section \<open>Concrete inputs\<close>

definition zero_pay_draw :: pay_draw where
  "zero_pay_draw = \<lparr> pd_skip = 0, pd_days = 0, pd_frac = 0, pd_late = 0, pd_method = 0 \<rparr>"

definition zero_pay_orc :: "nat \<Rightarrow> nat \<Rightarrow> pay_draw" where
  "zero_pay_orc k month = zero_pay_draw"



definition zero_cust_draw :: cust_draw where
  "zero_cust_draw = \<lparr> cd_house = 0, cd_last_name = ''Smith'', cd_city = ''Austin'',
     cd_state = ''TX'', cd_address = ''1 Main Street'', cd_zip = ''73301'', cd_pep = 0,
     cd_risk = 0, cd_income = 0, cd_credit = 0, cd_employment = 0 \<rparr>"

definition zero_cust_orc :: "nat \<Rightarrow> cust_draw" where
  "zero_cust_orc i = zero_cust_draw"



definition fresh_store :: "(nat \<Rightarrow> cust_draw) \<Rightarrow> db" where
  \<comment> \<open>the store after the first two stages of \<^verbatim>\<open>main()\<close>: five banks, 500 customers\<close>
  "fresh_store co = generate_customers (generate_banks empty_db) 500 co"

definition zero_loan_draw :: loan_draw where
  "zero_loan_draw = \<lparr> ld_type = 0, ld_bank = 0, ld_principal = 0, ld_term = 0, ld_rate = 0,
     ld_orig = 0, ld_delinq = 0 \<rparr>"

definition zero_sample :: "nat \<Rightarrow> nat" where
  "zero_sample k = 0"

definition zero_loan_draws :: "nat \<Rightarrow> loan_draw" where
  "zero_loan_draws k = zero_loan_draw"

definition zero_loan_orc :: loan_oracle where
  "zero_loan_orc = \<lparr> lo_sample = zero_sample, lo_loan = zero_loan_draws \<rparr>"

definition zero_acct_draw :: acct_draw where
  "zero_acct_draw = \<lparr> ad_bank = 0, ad_type = 0, ad_balance = 0, ad_opened = 0, ad_rate = 0,
     ad_overdraft = 0 \<rparr>"

definition zero_acct_draws :: "nat \<Rightarrow> nat \<Rightarrow> acct_draw" where
  "zero_acct_draws i j = zero_acct_draw"

definition zero_acct_orc :: acct_oracle where
  \<comment> \<open>one account per customer\<close>
  "zero_acct_orc = \<lparr> ao_count = zero_sample, ao_account = zero_acct_draws,
     ao_primary = zero_sample, ao_joint = zero_sample \<rparr>"

definition demo_accounts_db :: db where
  \<comment> \<open>the store after the account stage of a run on day 0 with the all-zero draws\<close>
  "demo_accounts_db = projr (generate_accounts (fresh_store zero_cust_orc) 0 zero_acct_orc)"

definition zero_txn_draw :: txn_draw where
  \<comment> \<open>outside the window these draws give a DEPOSIT of 500 on the first account\<close>
  "zero_txn_draw = \<lparr> td_account = 0, td_amount = 0, td_location = 0, td_type = 0,
     td_category = 0, td_merchant = 0, td_date = 0, td_city = ''Austin'', td_state = ''TX'',
     td_ip = ''10.0.0.1'', td_device = 0 \<rparr>"

definition zero_txn_orc :: "nat \<Rightarrow> txn_draw" where
  "zero_txn_orc i = zero_txn_draw"

definition zero_clock :: "nat \<Rightarrow> int" where
  "zero_clock i = 0"


definition demo_account :: account where
  "demo_account = \<lparr> account_number = 1000000000, a_bank_id = 1, account_type = ''CHECKING'',
     balance = 100, currency = ''USD'', opened_date = 0, closed_date = None,
     a_status = ''ACTIVE'', a_interest_rate = 0, overdraft_limit = 0 \<rparr>"

definition one_account_db :: db where
  \<comment> \<open>a store whose only account has id 1 and balance 100\<close>
  "one_account_db = empty_db\<lparr> accounts := [(1, demo_account)] \<rparr>"



definition demo_txns :: "txn list" where
  \<comment> \<open>the 5000 transactions generated on the store \<open>demo_accounts_db\<close> with the all-zero draws\<close>
  "demo_txns = projr (transaction_rows demo_accounts_db 5000 zero_clock zero_txn_orc)"

definition demo_txn_db :: db where
  "demo_txn_db = projr (generate_transactions demo_accounts_db 5000 zero_clock zero_txn_orc)"

definition young_loan_draw :: loan_draw where
  \<comment> \<open>an origination date 450 days before the run: fifteen periods of thirty days\<close>
  "young_loan_draw = zero_loan_draw\<lparr> ld_orig := 1375 \<rparr>"

definition young150_draws :: "nat \<Rightarrow> loan_draw" where
  \<comment> \<open>the loan at position 149, which gets id 150, is young; the others are five years old\<close>
  "young150_draws k = (if k = 149 then young_loan_draw else zero_loan_draw)"

definition young150_loan_orc :: loan_oracle where
  "young150_loan_orc = \<lparr> lo_sample = zero_sample, lo_loan = young150_draws \<rparr>"

definition young150_db :: db where
  \<comment> \<open>the store after the loan stage of a run on day 0 in which loan 150 is 450 days old\<close>
  "young150_db = projr (generate_loans demo_txn_db 0 young150_loan_orc)"

definition demo_loan_rows :: "loan list" where
  \<comment> \<open>the loans generated on day 0 for the 500 customers of the all-zero draws\<close>
  "demo_loan_rows = projr (loan_rows (fresh_store zero_cust_orc) 0 zero_loan_orc)"

section \<open>Facts about the random source and the store\<close>

lemma random_unit_range: "0 \<le> random_unit k \<and> random_unit k < 1"
proof -
  have "k mod 2 ^ 53 < (2::nat) ^ 53" by simp
  then have "real (k mod 2 ^ 53) < 2 ^ 53"
    by (metis of_nat_less_iff of_nat_numeral of_nat_power)
  then show ?thesis by (simp add: random_unit_def)
qed

lemma uniform_lower: "a \<le> b \<Longrightarrow> a \<le> uniform a b k"
  using random_unit_range [of k] by (simp add: uniform_def)

lemma uniform_upper: "a < b \<Longrightarrow> uniform a b k < b"
proof -
  assume ab: "a < b"
  have "(b - a) * random_unit k < (b - a) * 1"
    using ab random_unit_range [of k] by (intro mult_strict_left_mono) auto
  then show ?thesis by (simp add: uniform_def)
qed

lemma pick_mem: "xs \<noteq> [] \<Longrightarrow> pick xs k \<in> set xs"
  by (simp add: pick_def)

lemma randint_range: "a \<le> b \<Longrightarrow> a \<le> randint a b k \<and> randint a b k \<le> b"
proof -
  assume "a \<le> b"
  have "k mod (b - a + 1) < b - a + 1" by simp
  with \<open>a \<le> b\<close> show ?thesis unfolding randint_def by linarith
qed

lemma sequence_Inr_mem:
  "sequence xs = Inr vs \<Longrightarrow> v \<in> set vs \<Longrightarrow> Inr v \<in> set xs"
  by (induction xs arbitrary: vs) (auto split: sum.splits)

lemma sequence_Inr_length: "sequence xs = Inr vs \<Longrightarrow> length vs = length xs"
  by (induction xs arbitrary: vs) (auto split: sum.splits)

lemma sequence_all_Inr:
  "(\<And>x. x \<in> set xs \<Longrightarrow> \<exists>v. x = Inr v) \<Longrightarrow> \<exists>vs. sequence xs = Inr vs"
  by (induction xs) (fastforce split: sum.splits)+

lemma map_filter_concat:
  "List.map_filter f xs = concat (map (\<lambda>x. case f x of None \<Rightarrow> [] | Some y \<Rightarrow> [y]) xs)"
  by (induction xs) (auto simp: List.map_filter_simps split: option.splits)

section \<open>Payments: properties\<close>

lemma payment_rows_mem:
  "p \<in> set (payment_rows t today orc) \<Longrightarrow>
   \<exists>k month. k < length (selected_loans t)
      \<and> month < nat (min (months_since_origination today (snd (selected_loans t ! k))) 36)
      \<and> payment_row (fst (selected_loans t ! k)) (snd (selected_loans t ! k)) month (orc k month)
          = Some p"
  by (fastforce simp: payment_rows_def loan_payments_def List.map_filter_def in_set_enumerate_eq)



lemma concat_le1:
  assumes "distinct (map key xs)"
    and "\<And>x. x \<in> set xs \<Longrightarrow> key x \<noteq> c \<Longrightarrow> g x = []"
    and "\<And>x. x \<in> set xs \<Longrightarrow> length (g x) \<le> 1"
  shows "length (concat (map g xs)) \<le> 1"
  using assms
proof (induction xs)
  case Nil
  then show ?case by simp
next
  case (Cons x xs)
  show ?case
  proof (cases "key x = c")
    case True
    have "\<And>y. y \<in> set xs \<Longrightarrow> g y = []"
    proof -
      fix y assume y: "y \<in> set xs"
      from Cons.prems(1) have "key x \<notin> key ` set xs" by simp
      with y True have "key y \<noteq> c" by (metis imageI)
      with y Cons.prems(2) show "g y = []" by simp
    qed
    then have c: "concat (map g xs) = []" by simp
    show ?thesis using Cons.prems(3) [of x] by (simp add: c)
  next
    case False
    with Cons.prems(2) [of x] have "g x = []" by simp
    moreover have "length (concat (map g xs)) \<le> 1"
      using Cons by simp
    ultimately show ?thesis by simp
  qed
qed

lemma payment_row_reversed:
  "payment_row lid l m d = Some p \<Longrightarrow>
   p_loan_id p = lid \<and> scheduled_date p = origination_date l + int m * 30
   \<and> (reversed p \<longleftrightarrow> lid = 150 \<and> m = 15)
   \<and> (reversed p \<longrightarrow> reversal_reason p = Some ''Insufficient funds - payment reversed after 3 days'')
   \<and> (\<not> reversed p \<longrightarrow> is_reversed p = 0 \<and> reversal_reason p = None)"
  by (auto simp: payment_row_def make_payment_def reversed_def Let_def split: if_splits)

lemma loan_payments_reversed_le1:
  "length (filter reversed (loan_payments today ds row)) \<le> 1"
proof -
  let ?h = "\<lambda>month. case payment_row (fst row) (snd row) month (ds month) of
                        None \<Rightarrow> [] | Some y \<Rightarrow> [y]"
  let ?n = "nat (min (months_since_origination today (snd row)) 36)"
  have eq: "filter reversed (loan_payments today ds row)
            = concat (map (\<lambda>m. filter reversed (?h m)) [0 ..< ?n])"
    by (simp add: loan_payments_def map_filter_concat filter_concat comp_def)
  have "length (concat (map (\<lambda>m. filter reversed (?h m)) [0 ..< ?n])) \<le> 1"
  proof (rule concat_le1 [where key = "\<lambda>m. m" and c = 15])
    show "distinct (map (\<lambda>m. m) [0 ..< ?n])" by simp
  next
    fix m assume "m \<noteq> (15::nat)"
    then show "filter reversed (?h m) = []"
      by (auto split: option.splits dest: payment_row_reversed)
  next
    fix m show "length (filter reversed (?h m)) \<le> 1"
      by (simp split: option.splits)
  qed
  with eq show ?thesis by simp
qed

lemma loan_payments_not150:
  "fst row \<noteq> 150 \<Longrightarrow> filter reversed (loan_payments today ds row) = []"
  by (auto simp: loan_payments_def List.map_filter_def filter_empty_conv
           dest: payment_row_reversed)

lemma reversed_rows_le1:
  assumes "distinct (map fst t)"
  shows "length (reversed_rows (payment_rows t today orc)) \<le> 1"
proof -
  let ?g = "\<lambda>kr. filter reversed (loan_payments today (orc (fst kr)) (snd kr))"
  let ?E = "enumerate 0 (selected_loans t)"
  have eq: "reversed_rows (payment_rows t today orc) = concat (map ?g ?E)"
    by (simp add: reversed_rows_def payment_rows_def filter_concat comp_def case_prod_beta)
  have "length (concat (map ?g ?E)) \<le> 1"
  proof (rule concat_le1 [where key = "\<lambda>kr. fst (snd kr)" and c = 150])
    have a: "map fst (map snd ?E) = map fst (selected_loans t)"
      by (simp only: map_snd_enumerate)
    have b: "map fst (map snd ?E) = map (\<lambda>kr. fst (snd kr)) ?E"
      by (simp only: map_map comp_def)
    have "map (\<lambda>kr. fst (snd kr)) ?E = map fst (selected_loans t)"
      by (rule trans [OF b [symmetric] a])
    moreover have "distinct (map fst (selected_loans t))"
      using assms by (simp add: selected_loans_def distinct_map_filter)
    ultimately show "distinct (map (\<lambda>kr. fst (snd kr)) ?E)" by simp
  next
    fix kr :: "nat \<times> nat \<times> loan" assume "fst (snd kr) \<noteq> 150"
    then show "?g kr = []" by (rule loan_payments_not150)
  next
    fix kr :: "nat \<times> nat \<times> loan"
    show "length (?g kr) \<le> 1" by (rule loan_payments_reversed_le1)
  qed
  with eq show ?thesis by simp
qed



text \<open>
  The reversal is unique: with loan ids that are unique, at most one payment row is reversed;
  a reversed row belongs to loan 150, is scheduled 15 periods of thirty days after the
  origination of that loan and carries the fixed reason; every other row has the reversal
  flag 0 and no reason.
\<close>

lemma reversal_at_most_one:
  assumes "distinct (map fst t)"
  shows "length (reversed_rows (payment_rows t today orc)) \<le> 1
    \<and> (\<forall>p \<in> set (payment_rows t today orc).
         (reversed p \<longrightarrow>
            p_loan_id p = 150
            \<and> (\<exists>l. (150, l) \<in> set t \<and> scheduled_date p = origination_date l + 15 * 30)
            \<and> reversal_reason p = Some ''Insufficient funds - payment reversed after 3 days'')
         \<and> (\<not> reversed p \<longrightarrow> is_reversed p = 0 \<and> reversal_reason p = None))"
proof (intro conjI ballI)
  show "length (reversed_rows (payment_rows t today orc)) \<le> 1"
    using assms by (rule reversed_rows_le1)
next
  fix p assume "p \<in> set (payment_rows t today orc)"
  from payment_rows_mem [OF this] obtain k month where
    k: "k < length (selected_loans t)" and
    row: "payment_row (fst (selected_loans t ! k)) (snd (selected_loans t ! k)) month
            (orc k month) = Some p"
    by blast
  from k have "selected_loans t ! k \<in> set (selected_loans t)" by simp
  then have mem: "(fst (selected_loans t ! k), snd (selected_loans t ! k)) \<in> set t"
    by (simp add: selected_loans_def)
  note facts = payment_row_reversed [OF row]
  show "reversed p \<longrightarrow>
          p_loan_id p = 150
          \<and> (\<exists>l. (150, l) \<in> set t \<and> scheduled_date p = origination_date l + 15 * 30)
          \<and> reversal_reason p = Some ''Insufficient funds - payment reversed after 3 days''"
  proof
    assume r: "reversed p"
    with facts have id: "fst (selected_loans t ! k) = 150" and m: "month = 15" by simp_all
    from mem id have "(150, snd (selected_loans t ! k)) \<in> set t" by simp
    moreover from facts m
    have "scheduled_date p = origination_date (snd (selected_loans t ! k)) + 15 * 30" by simp
    ultimately have "\<exists>l. (150, l) \<in> set t \<and> scheduled_date p = origination_date l + 15 * 30"
      by blast
    with facts r id show "p_loan_id p = 150
          \<and> (\<exists>l. (150, l) \<in> set t \<and> scheduled_date p = origination_date l + 15 * 30)
          \<and> reversal_reason p = Some ''Insufficient funds - payment reversed after 3 days''"
      by simp
  qed
  show "\<not> reversed p \<longrightarrow> is_reversed p = 0 \<and> reversal_reason p = None"
    using facts by simp
qed

section \<open>Loans: properties\<close>

lemma pow_bounds:
  fixes x l u l' u' :: real
  assumes "0 \<le> l" "l \<le> x" "x \<le> u" "l' \<le> l ^ n" "u ^ n \<le> u'"
  shows "l' \<le> x ^ n \<and> x ^ n \<le> u'"
proof -
  have "l ^ n \<le> x ^ n" using assms by (intro power_mono) auto
  moreover have "x ^ n \<le> u ^ n" using assms by (intro power_mono) auto
  ultimately show ?thesis using assms by linarith
qed

lemma pow360: "(a::real) ^ 360 = (((a ^ 8) ^ 5) ^ 3) ^ 3"
  by (simp flip: power_mult)

lemma growth_bounds:
  "3.847698049 \<le> ((803::real) / 800) ^ 360 \<and> ((803::real) / 800) ^ 360 \<le> 3.847698051"
proof -
  define y0 where "y0 = ((803::real) / 800) ^ 8"
  have b0: "1.030396717009 \<le> y0 \<and> y0 \<le> 1.030396717010"
    unfolding y0_def by (simp add: power_divide)
  have b1: "1.161508337187 \<le> y0 ^ 5 \<and> y0 ^ 5 \<le> 1.161508337194"
    by (rule pow_bounds [of "1.030396717009" y0 "1.030396717010"])
       (use b0 in \<open>simp_all add: power_divide\<close>)
  have b2: "1.56699277627 \<le> (y0 ^ 5) ^ 3 \<and> (y0 ^ 5) ^ 3 \<le> 1.566992776299"
    by (rule pow_bounds [of "1.161508337187" "y0 ^ 5" "1.161508337194"])
       (use b1 in \<open>simp_all add: power_divide\<close>)
  have b3: "3.847698049 \<le> ((y0 ^ 5) ^ 3) ^ 3 \<and> ((y0 ^ 5) ^ 3) ^ 3 \<le> 3.847698051"
    by (rule pow_bounds [of "1.56699277627" "(y0 ^ 5) ^ 3" "1.566992776299"])
       (use b2 in \<open>simp_all add: power_divide\<close>)
  show ?thesis
    using b3 unfolding y0_def pow360 [of "803 / 800"] .
qed

lemma amortization_value:
  "amortization P R n =
     (if (1 + R / 12) ^ n - 1 = 0 then Inl ZeroDivisionError
      else Inr (P * (R / 12) * (1 + R / 12) ^ n / ((1 + R / 12) ^ n - 1)))"
  by (simp add: amortization_def Let_def)

lemma mortgage_payment_of_growth:
  fixes q :: real
  assumes "3.847698049 \<le> q" "q \<le> 3.847698051"
  shows "q - 1 \<noteq> 0 \<and> \<bar>1125 * q / (q - 1) - 1520.06\<bar> \<le> 0.01"
proof -
  have pos: "0 < q - 1" using assms by simp
  have lo: "1520.05 \<le> 1125 * q / (q - 1)"
    using pos assms by (simp add: pos_le_divide_eq algebra_simps)
  have hi: "1125 * q / (q - 1) \<le> 1520.07"
    using pos assms by (simp add: pos_divide_le_eq algebra_simps)
  have "\<bar>1125 * q / (q - 1) - 1520.06\<bar> \<le> 0.01" using lo hi by linarith
  moreover have "q - 1 \<noteq> 0" using pos by simp
  ultimately show ?thesis by (intro conjI)
qed

lemma mortgage_scenario:
  "\<exists>m. amortization 300000 0.045 360 = Inr m \<and> \<bar>m - 1520.06\<bar> \<le> 0.01"
proof -
  define q where "q = ((803::real) / 800) ^ 360"
  have r: "1 + (0.045::real) / 12 = 803 / 800" by simp
  have p: "(300000::real) * (0.045 / 12) = 1125" by simp
  have b: "3.847698049 \<le> q \<and> q \<le> 3.847698051"
    unfolding q_def by (rule growth_bounds)
  then have m: "q - 1 \<noteq> 0 \<and> \<bar>1125 * q / (q - 1) - 1520.06\<bar> \<le> 0.01"
    using mortgage_payment_of_growth by blast
  have "amortization 300000 0.045 360 =
          (if q - 1 = 0 then Inl ZeroDivisionError else Inr (1125 * q / (q - 1)))"
    unfolding q_def amortization_value r p ..
  with m show ?thesis by simp
qed


lemma pick_delinq: "pick [0, 0, 0, 0, 15, 30::nat] k \<in> {0, 15, 30}"
  using pick_mem [of "[0, 0, 0, 0, 15, 30::nat]" k] by auto

lemma loan_status_iff:
  "(loan_status c (loan_delinquency c d) = ''DEFAULTED'' \<longleftrightarrow> loan_delinquency c d > 60)
   \<and> (\<not> loan_delinquency c d > 60 \<longrightarrow> loan_status c (loan_delinquency c d) = ''ACTIVE'')"
  using pick_delinq [of "ld_delinq d"]
  by (auto simp: loan_status_def loan_delinquency_def)

lemma loan_row_fields:
  assumes "loan_row today bank_ids cust d = Inr l"
  shows "l_status l = loan_status (fst cust) (delinquency_days l)"
    and "delinquency_days l = loan_delinquency (fst cust) d"
    and "l_customer_id l = fst cust"
    and "amortization (principal_amount l) (l_interest_rate l) (term_months l)
         = Inr (monthly_payment l)"
  using assms by (auto simp: loan_row_def Let_def split: sum.splits)

lemma pick_pos: "\<forall>x \<in> set xs. 0 < x \<Longrightarrow> xs \<noteq> [] \<Longrightarrow> 0 < pick xs (k::nat)"
  using pick_mem [of xs k] by blast

lemma loan_term_pos: "0 < loan_term ltype d"
  unfolding loan_term_def by (intro pick_pos | simp | rule conjI impI)+

lemma loan_rate_pos: "0 < loan_rate score ltype d"
proof -
  have "(0::real) \<le> uniform 0 0.02 (ld_rate d)" "(0.01::real) \<le> uniform 0.01 0.03 (ld_rate d)"
    "(0.02::real) \<le> uniform 0.02 0.05 (ld_rate d)"
    by (rule uniform_lower, simp)+
  then show ?thesis by (auto simp: loan_rate_def interest_rate_base_def)
qed

lemma amortization_total:
  assumes "0 < R" "0 < n"
  shows "amortization P R n = Inr (P * (R / 12) * (1 + R / 12) ^ n / ((1 + R / 12) ^ n - 1))
         \<and> (1 + R / 12) ^ n - 1 \<noteq> 0"
proof -
  have "1 < 1 + R / 12" using assms by simp
  then have "1 < (1 + R / 12) ^ n" using assms(2) by (rule one_less_power)
  then show ?thesis by (simp add: amortization_value)
qed

lemma loan_row_total:
  assumes "bank_ids \<noteq> []"
  shows "\<exists>l. loan_row today bank_ids cust d = Inr l"
proof -
  let ?k = "loan_kind (fst (snd cust)) d"
  from amortization_total [OF loan_rate_pos loan_term_pos]
  obtain m where "amortization (loan_principal ?k d) (loan_rate (fst (snd cust)) ?k d)
                    (loan_term ?k d) = Inr m"
    by blast
  with assms show ?thesis
    by (simp add: loan_row_def Let_def random_choice_def)
qed

lemma length_sample_from: "length (sample_from pool rs) = length rs"
  by (induction rs arbitrary: pool) (simp_all add: Let_def)

lemma loan_rows_mem:
  assumes "loan_rows s today orc = Inr rows" "l \<in> set rows"
  shows "\<exists>cust d. loan_row today (map fst (banks s)) cust d = Inr l"
proof -
  from assms(1) obtain sampled where
    "sequence (map (\<lambda>(k, cust). loan_row today (map fst (banks s)) cust (lo_loan orc k))
                   (enumerate 0 sampled)) = Inr rows"
    by (auto simp: loan_rows_def split: sum.splits)
  from sequence_Inr_mem [OF this assms(2)] show ?thesis by (auto simp: eq_commute)
qed

lemma loan_rows_total:
  assumes "200 \<le> length (customers s)" "banks s \<noteq> []"
  shows "\<exists>rows. loan_rows s today orc = Inr rows \<and> length rows = 200"
proof -
  let ?sampled = "sample_from (loan_customers s) (map (lo_sample orc) [0 ..< 200])"
  let ?xs = "map (\<lambda>(k, cust). loan_row today (map fst (banks s)) cust (lo_loan orc k))
                 (enumerate 0 ?sampled)"
  have rs: "random_sample (loan_customers s) 200 (lo_sample orc) = Inr ?sampled"
    using assms(1) by (simp add: random_sample_def loan_customers_def)
  have "\<And>x. x \<in> set ?xs \<Longrightarrow> \<exists>v. x = Inr v"
    using assms(2) loan_row_total [of "map fst (banks s)"] by auto
  then obtain rows where seq: "sequence ?xs = Inr rows"
    using sequence_all_Inr by blast
  then have "length rows = 200"
    using sequence_Inr_length [OF seq] by (simp add: length_sample_from)
  with rs seq show ?thesis by (simp add: loan_rows_def)
qed

lemma length_insert_many: "length (insert_many t rows) = length t + length rows"
  by (simp add: insert_many_def)

lemma fresh_store_sizes:
  "length (customers (fresh_store co)) = 500" "banks (fresh_store co) \<noteq> []"
  by (simp_all add: fresh_store_def generate_customers_def generate_banks_def empty_db_def
        length_insert_many customer_rows_def insert_many_def)

lemma demo_loan_rows_ok:
  "loan_rows (fresh_store zero_cust_orc) 0 zero_loan_orc = Inr demo_loan_rows"
  "hd demo_loan_rows \<in> set demo_loan_rows"
proof -
  from loan_rows_total [of "fresh_store zero_cust_orc" 0 zero_loan_orc]
  obtain rows where r: "loan_rows (fresh_store zero_cust_orc) 0 zero_loan_orc = Inr rows"
    and n: "length rows = 200"
    using fresh_store_sizes [of zero_cust_orc] by auto
  from r have d: "demo_loan_rows = rows" by (simp add: demo_loan_rows_def)
  from r d show "loan_rows (fresh_store zero_cust_orc) 0 zero_loan_orc = Inr demo_loan_rows"
    by simp
  from n have "rows \<noteq> []" by auto
  with d show "hd demo_loan_rows \<in> set demo_loan_rows" by simp
qed

text \<open>
  Claim C8. For every generated loan, of the identity cluster or not, the stored status is
  DEFAULTED if and only if the stored delinquency days exceed 60; otherwise it is ACTIVE.
\<close>

theorem loan_status_defaulted_iff:
  assumes "loan_rows s today orc = Inr rows" and "l \<in> set rows"
  shows "(l_status l = ''DEFAULTED'' \<longleftrightarrow> delinquency_days l > 60)
         \<and> (\<not> delinquency_days l > 60 \<longrightarrow> l_status l = ''ACTIVE'')"
proof -
  from loan_rows_mem [OF assms] obtain cust d where
    "loan_row today (map fst (banks s)) cust d = Inr l" by blast
  from loan_row_fields(1,2) [OF this] loan_status_iff [of "fst cust" d]
  show ?thesis by simp
qed

theorem loan_status_defaulted_iff_witness:
  "loan_rows (fresh_store zero_cust_orc) 0 zero_loan_orc = Inr demo_loan_rows
   \<and> hd demo_loan_rows \<in> set demo_loan_rows
   \<and> (l_status (hd demo_loan_rows) = ''DEFAULTED'' \<longleftrightarrow> delinquency_days (hd demo_loan_rows) > 60)"
proof -
  from loan_status_defaulted_iff [OF demo_loan_rows_ok]
  have "l_status (hd demo_loan_rows) = ''DEFAULTED'' \<longleftrightarrow> delinquency_days (hd demo_loan_rows) > 60"
    by (rule conjunct1)
  with demo_loan_rows_ok show ?thesis by (intro conjI)
qed

text \<open>
  Claim C3. For every generated loan with principal \<open>P\<close>, annual rate \<open>R\<close> and term \<open>n\<close>, the
  stored monthly payment is \<open>P r (1 + r)\<^sup>n / ((1 + r)\<^sup>n - 1)\<close> with \<open>r = R / 12\<close> (and the
  divisor is not zero); for principal 300000, rate 0.045 and term 360 the formula of the
  generator gives 1520.06 up to 0.01. (Amounts are exact reals here.)
\<close>

theorem monthly_payment_amortization:
  "(loan_rows s today orc = Inr rows \<longrightarrow> l \<in> set rows \<longrightarrow>
      (1 + l_interest_rate l / 12) ^ term_months l - 1 \<noteq> 0
      \<and> monthly_payment l =
          principal_amount l * (l_interest_rate l / 12)
            * (1 + l_interest_rate l / 12) ^ term_months l
          / ((1 + l_interest_rate l / 12) ^ term_months l - 1))
   \<and> (\<exists>m. amortization 300000 0.045 360 = Inr m \<and> \<bar>m - 1520.06\<bar> \<le> 0.01)"
proof (intro conjI impI)
  assume a: "loan_rows s today orc = Inr rows" "l \<in> set rows"
  from loan_rows_mem [OF a] obtain cust d where
    "loan_row today (map fst (banks s)) cust d = Inr l" by blast
  from loan_row_fields(4) [OF this]
  have v: "amortization (principal_amount l) (l_interest_rate l) (term_months l)
           = Inr (monthly_payment l)" .
  then show "(1 + l_interest_rate l / 12) ^ term_months l - 1 \<noteq> 0"
    by (auto simp: amortization_value split: if_splits)
  from v show "monthly_payment l =
          principal_amount l * (l_interest_rate l / 12)
            * (1 + l_interest_rate l / 12) ^ term_months l
          / ((1 + l_interest_rate l / 12) ^ term_months l - 1)"
    by (auto simp: amortization_value split: if_splits)
next
  show "\<exists>m. amortization 300000 0.045 360 = Inr m \<and> \<bar>m - 1520.06\<bar> \<le> 0.01"
    by (rule mortgage_scenario)
qed

theorem monthly_payment_amortization_witness:
  "loan_rows (fresh_store zero_cust_orc) 0 zero_loan_orc = Inr demo_loan_rows
   \<and> hd demo_loan_rows \<in> set demo_loan_rows
   \<and> monthly_payment (hd demo_loan_rows) =
          principal_amount (hd demo_loan_rows) * (l_interest_rate (hd demo_loan_rows) / 12)
            * (1 + l_interest_rate (hd demo_loan_rows) / 12) ^ term_months (hd demo_loan_rows)
          / ((1 + l_interest_rate (hd demo_loan_rows) / 12) ^ term_months (hd demo_loan_rows) - 1)"
proof -
  from monthly_payment_amortization
         [of "fresh_store zero_cust_orc" 0 zero_loan_orc demo_loan_rows "hd demo_loan_rows"]
       demo_loan_rows_ok
  have "monthly_payment (hd demo_loan_rows) =
          principal_amount (hd demo_loan_rows) * (l_interest_rate (hd demo_loan_rows) / 12)
            * (1 + l_interest_rate (hd demo_loan_rows) / 12) ^ term_months (hd demo_loan_rows)
          / ((1 + l_interest_rate (hd demo_loan_rows) / 12) ^ term_months (hd demo_loan_rows) - 1)"
    by blast
  with demo_loan_rows_ok show ?thesis by (intro conjI)
qed

section \<open>Customers: properties\<close>



lemma customer_rows_nth:
  "i < count \<Longrightarrow> customer_rows count orc ! i = customer_row i (orc i)"
  by (simp add: customer_rows_def)

lemma length_customer_rows: "length (customer_rows count orc) = count"
  by (simp add: customer_rows_def)






section \<open>Accounts and ownership: properties\<close>

lemma next_rowid_empty: "next_rowid [] = 1"
  by (simp add: next_rowid_def)

lemma length_rowids: "length (rowids n) = n"
  by (simp add: rowids_def del: upt_Suc)

lemma nth_rowids: "i < n \<Longrightarrow> rowids n ! i = Suc i"
  by (simp add: rowids_def del: upt_Suc)

lemma distinct_rowids: "distinct (rowids n)"
  by (simp add: rowids_def del: upt_Suc)

lemma set_rowids: "set (rowids n) = {1 .. n}"
  by (auto simp: rowids_def simp del: upt_Suc)

lemma insert_many_empty: "insert_many [] rows = zip (rowids (length rows)) rows"
  by (simp add: insert_many_def next_rowid_empty rowids_def del: upt_Suc)

lemma ids_insert_many_empty: "map fst (insert_many [] rows) = rowids (length rows)"
  by (simp add: insert_many_empty length_rowids)

lemma fresh_store_tables:
  "customers (fresh_store co) = zip (rowids 500) (customer_rows 500 co)"
  "map fst (customers (fresh_store co)) = rowids 500"
  "accounts (fresh_store co) = []"
  "account_customers (fresh_store co) = []"
  by (simp_all add: fresh_store_def generate_customers_def generate_banks_def empty_db_def
        insert_many_empty length_customer_rows length_rowids)

lemma account_row_ok:
  "account_row today bank_ids i c j d = Inr a \<Longrightarrow> a_status a = ''ACTIVE'' \<and> closed_date a = None"
  by (auto simp: account_row_def Let_def split: sum.splits)

lemma account_row_total:
  "bank_ids \<noteq> [] \<Longrightarrow> \<exists>a. account_row today bank_ids i c j d = Inr a"
  by (simp add: account_row_def Let_def random_choice_def)

lemma nested_loop_mem:
  assumes "x \<in> set (concat (map (\<lambda>(i, c). map (g i c) [0 ..< n i]) (enumerate 0 cids)))"
  shows "\<exists>i c j. x = g i c j"
  using assms by auto

lemma account_rows_ok:
  assumes "account_rows today bank_ids cids orc = Inr rows" "a \<in> set rows"
  shows "a_status a = ''ACTIVE'' \<and> closed_date a = None"
proof -
  have "Inr a \<in> set (concat (map (\<lambda>(i, customer_id).
                 map (\<lambda>j. account_row today bank_ids i customer_id j (ao_account orc i j))
                     [0 ..< pick [1, 2, 3, 4] (ao_count orc i)])
               (enumerate 0 cids)))"
    using sequence_Inr_mem [OF assms [unfolded account_rows_def]] .
  from nested_loop_mem [OF this]
  obtain i c j where "Inr a = account_row today bank_ids i c j (ao_account orc i j)"
    by blast
  then have "account_row today bank_ids i c j (ao_account orc i j) = Inr a" by (rule sym)
  then show ?thesis by (rule account_row_ok)
qed

lemma length_concat_ge:
  "(\<And>x. x \<in> set xs \<Longrightarrow> f x \<noteq> []) \<Longrightarrow> length xs \<le> length (concat (map f xs))"
proof (induction xs)
  case Nil
  then show ?case by simp
next
  case (Cons x xs)
  then have "f x \<noteq> []" by simp
  then have "1 \<le> length (f x)" by (cases "f x") simp_all
  moreover have "length xs \<le> length (concat (map f xs))" using Cons by simp
  ultimately show ?case by simp
qed

lemma pick_count_pos: "0 < pick [1, 2, 3, 4::nat] k"
  by (intro pick_pos) simp_all

lemma nested_loop_all:
  assumes "\<And>i c j. P (g i c j)"
  shows "\<forall>x \<in> set (concat (map (\<lambda>(i, c). map (g i c) [0 ..< n i]) (enumerate 0 cids))). P x"
  using assms by auto

lemma nested_loop_length:
  assumes "\<And>i. 0 < (n i :: nat)"
  shows "length cids
         \<le> length (concat (map (\<lambda>(i, c). map (g i c) [0 ..< n i]) (enumerate 0 cids)))"
proof -
  have "length (enumerate 0 cids)
        \<le> length (concat (map (\<lambda>(i, c). map (g i c) [0 ..< n i]) (enumerate 0 cids)))"
  proof (rule length_concat_ge)
    fix x :: "nat \<times> 'a"
    show "(case x of (i, c) \<Rightarrow> map (g i c) [0 ..< n i]) \<noteq> []"
      using assms [of "fst x"] by (cases x) simp
  qed
  then show ?thesis by simp
qed

lemma account_rows_total:
  assumes "bank_ids \<noteq> []"
  shows "\<exists>rows. account_rows today bank_ids cids orc = Inr rows \<and> length cids \<le> length rows"
proof -
  let ?g = "\<lambda>i customer_id j. account_row today bank_ids i customer_id j (ao_account orc i j)"
  let ?n = "\<lambda>i. pick [1, 2, 3, 4] (ao_count orc i)"
  let ?xs = "concat (map (\<lambda>(i, c). map (?g i c) [0 ..< ?n i]) (enumerate 0 cids))"
  have "\<forall>x \<in> set ?xs. \<exists>v. x = Inr v"
    by (rule nested_loop_all) (rule account_row_total [OF assms])
  then obtain rows where seq: "sequence ?xs = Inr rows"
    using sequence_all_Inr [of ?xs] by blast
  have "length cids \<le> length ?xs"
    by (rule nested_loop_length) (rule pick_count_pos)
  with sequence_Inr_length [OF seq] have "length cids \<le> length rows" by simp
  with seq show ?thesis by (simp add: account_rows_def)
qed

lemma list_ex_same_key: "list_ex (same_key r) acc \<longleftrightarrow> okey r \<in> okey ` set acc"
  by (auto simp: list_ex_iff same_key_def okey_def)

lemma insert_or_ignore_fold:
  "distinct (map okey (acc @ rows)) \<Longrightarrow>
   fold (\<lambda>r acc. if list_ex (same_key r) acc then acc else acc @ [r]) rows acc = acc @ rows"
proof (induction rows arbitrary: acc)
  case Nil
  then show ?case by simp
next
  case (Cons r rows)
  from Cons.prems have "okey r \<notin> okey ` set acc" by auto
  then have step: "\<not> list_ex (same_key r) acc" by (simp add: list_ex_same_key)
  from Cons.prems have "distinct (map okey ((acc @ [r]) @ rows))" by simp
  from Cons.IH [OF this] step show ?case by simp
qed

lemma insert_or_ignore_distinct:
  "distinct (map okey rows) \<Longrightarrow> insert_or_ignore [] rows = rows"
  using insert_or_ignore_fold [of "[]" rows] by (simp add: insert_or_ignore_def)

lemma primary_rows_mem:
  assumes "r \<in> set (primary_rows today (rowids n) (rowids 500) orc)"
  shows "\<exists>i < n. o_account_id r = Suc i \<and> o_customer_id r = Suc (i mod 500)
                 \<and> relationship_type r = ''PRIMARY''"
proof -
  from assms obtain i a where ia: "(i, a) \<in> set (enumerate 0 (rowids n))"
    and r: "r = \<lparr> o_account_id = a,
                  o_customer_id = rowids 500 ! (i mod length (rowids 500)),
                  relationship_type = ''PRIMARY'',
                  added_date = date_between today 1825 0 (ao_primary orc i) \<rparr>"
    by (auto simp: primary_rows_def)
  from ia have i: "i < n" and a: "a = Suc i"
    by (auto simp: in_set_enumerate_eq length_rowids nth_rowids)
  have "i mod 500 < 500" by simp
  then have "rowids 500 ! (i mod 500) = Suc (i mod 500)"
    by (rule nth_rowids)
  with r a i show ?thesis by (simp add: length_rowids)
qed

lemma primary_rows_accounts:
  "map o_account_id (primary_rows today ids cids orc) = ids"
proof -
  have "map o_account_id (primary_rows today ids cids orc) = map snd (enumerate 0 ids)"
    by (simp add: primary_rows_def comp_def case_prod_beta)
  then show ?thesis by (simp only: map_snd_enumerate)
qed

lemma primary_rows_nth:
  assumes "i < length ids"
  shows "primary_rows today ids cids orc ! i =
           \<lparr> o_account_id = ids ! i,
             o_customer_id = cids ! (i mod length cids),
             relationship_type = ''PRIMARY'',
             added_date = date_between today 1825 0 (ao_primary orc i) \<rparr>"
  using assms by (simp add: primary_rows_def nth_enumerate_eq)

lemma joint_rows_eq:
  "map okey (joint_rows today a orc) = [(a, 101), (a, 102), (a, 103)]"
  "map relationship_type (joint_rows today a orc) = [''JOINT'', ''JOINT'', ''JOINT'']"
  by (simp_all add: joint_rows_def johnson_customers_def okey_def enumerate_eq_zip upt_conv_Cons)

lemma distinct_map_via:
  "distinct (map f xs) \<Longrightarrow> (\<And>x. f x = g (h x)) \<Longrightarrow> distinct (map h xs)"
  by (induction xs) (auto simp: image_iff)

lemma ownership_keys_distinct:
  "distinct (map okey (primary_rows today (rowids n) (rowids 500) orc
                       @ joint_rows today 151 orc))"
proof -
  let ?P = "primary_rows today (rowids n) (rowids 500) orc"
  have "distinct (map o_account_id ?P)"
    by (simp only: primary_rows_accounts distinct_rowids)
  then have p: "distinct (map okey ?P)"
    by (rule distinct_map_via [where g = fst]) (simp add: okey_def)
  have j: "distinct (map okey (joint_rows today 151 orc))"
    by (simp add: joint_rows_eq)
  have d: "okey ` set ?P \<inter> set (map okey (joint_rows today 151 orc)) = {}"
  proof -
    have "\<And>r. r \<in> set ?P \<Longrightarrow> okey r \<notin> {(151, 101), (151, 102), (151, 103)}"
    proof -
      fix r assume "r \<in> set ?P"
      from primary_rows_mem [OF this] obtain i where
        "o_account_id r = Suc i" "o_customer_id r = Suc (i mod 500)" by blast
      then show "okey r \<notin> {(151, 101), (151, 102), (151, 103)}"
        by (auto simp: okey_def)
    qed
    then have "okey ` set ?P \<inter> {(151, 101), (151, 102), (151, 103)} = {}" by blast
    moreover have "set (map okey (joint_rows today 151 orc))
                   = {(151, 101), (151, 102), (151, 103)}"
      by (simp only: joint_rows_eq) simp
    ultimately show ?thesis by (simp only:)
  qed
  from p j d show ?thesis by (simp only: map_append distinct_append set_map)
qed


lemma generate_accounts_fresh:
  assumes "account_rows today (map fst (banks (fresh_store co))) (rowids 500) ao = Inr rows"
  shows "generate_accounts (fresh_store co) today ao =
           Inr ((fresh_store co)\<lparr> accounts := zip (rowids (length rows)) rows,
                  account_customers :=
                    primary_rows today (rowids (length rows)) (rowids 500) ao
                    @ joint_rows today 151 ao \<rparr>)"
    and "500 \<le> length rows"
proof -
  from account_rows_total [of "map fst (banks (fresh_store co))" today "rowids 500" ao] assms
  show n: "500 \<le> length rows"
    using fresh_store_sizes(2) [of co] by (auto simp: length_rowids)
  have ids: "map fst (zip (rowids (length rows)) rows) = rowids (length rows)"
    by (simp add: length_rowids)
  have c1: "\<not> (rowids (length rows) \<noteq> [] \<and> rowids 500 = [])"
    using length_rowids [of 500] by auto
  have c2: "\<not> length (rowids (length rows)) \<le> 150"
    using n by (simp add: length_rowids)
  have c3: "set johnson_customers \<subseteq> set (rowids 500)"
    by (simp add: johnson_customers_def set_rowids)
  have c4: "rowids (length rows) ! 150 = 151"
    using n by (simp add: nth_rowids)
  have c5: "insert_or_ignore []
              (primary_rows today (rowids (length rows)) (rowids 500) ao
               @ joint_rows today 151 ao)
            = primary_rows today (rowids (length rows)) (rowids 500) ao
               @ joint_rows today 151 ao"
    by (rule insert_or_ignore_distinct) (rule ownership_keys_distinct)
  show "generate_accounts (fresh_store co) today ao =
           Inr ((fresh_store co)\<lparr> accounts := zip (rowids (length rows)) rows,
                  account_customers :=
                    primary_rows today (rowids (length rows)) (rowids 500) ao
                    @ joint_rows today 151 ao \<rparr>)"
    unfolding generate_accounts_def Let_def fresh_store_tables(2,3,4) assms insert_many_empty
    by (simp only: sum.case ids c1 c2 c3 c4 c5 if_False if_True not_True_eq_False)
qed

lemma generate_accounts_fresh_total:
  "\<exists>rows. account_rows today (map fst (banks (fresh_store co))) (rowids 500) ao = Inr rows"
  using account_rows_total [of "map fst (banks (fresh_store co))" today "rowids 500" ao]
    fresh_store_sizes(2) [of co] by auto

lemma generate_accounts_accounts:
  assumes "generate_accounts s today orc = Inr s'"
  shows "\<exists>rows. account_rows today (map fst (banks s)) (map fst (customers s)) orc = Inr rows
               \<and> accounts s' = insert_many (accounts s) rows"
  using assms
  by (auto simp: generate_accounts_def Let_def split: sum.splits if_splits)

lemma demo_accounts_db_ok:
  "generate_accounts (fresh_store zero_cust_orc) 0 zero_acct_orc = Inr demo_accounts_db"
proof -
  from generate_accounts_fresh_total [of 0 zero_cust_orc zero_acct_orc]
  obtain rows where
    "account_rows 0 (map fst (banks (fresh_store zero_cust_orc))) (rowids 500) zero_acct_orc
     = Inr rows" by blast
  from generate_accounts_fresh(1) [OF this] show ?thesis
    by (simp add: demo_accounts_db_def)
qed

text \<open>
  Claim C10. Every account generated into an empty account table has status ACTIVE and no
  closed date, so the selection of ACTIVE accounts by the transaction generator returns the
  whole account table: every account can receive transactions.
\<close>

theorem all_accounts_active:
  assumes "accounts s = []" and "generate_accounts s today orc = Inr s'"
  shows "(\<forall>row \<in> set (accounts s').
            a_status (snd row) = ''ACTIVE'' \<and> closed_date (snd row) = None)
         \<and> active_accounts s' = map (\<lambda>row. (fst row, balance (snd row))) (accounts s')"
proof -
  from generate_accounts_accounts [OF assms(2)] assms(1) obtain rows where
    r: "account_rows today (map fst (banks s)) (map fst (customers s)) orc = Inr rows"
    and a: "accounts s' = zip (rowids (length rows)) rows"
    by (auto simp: insert_many_empty)
  have all: "\<forall>row \<in> set (accounts s').
            a_status (snd row) = ''ACTIVE'' \<and> closed_date (snd row) = None"
  proof
    fix row assume "row \<in> set (accounts s')"
    with a have "snd row \<in> set rows" by (metis in_set_zipE prod.collapse)
    with r show "a_status (snd row) = ''ACTIVE'' \<and> closed_date (snd row) = None"
      by (rule account_rows_ok)
  qed
  then have "filter (\<lambda>row. a_status (snd row) = ''ACTIVE'') (accounts s') = accounts s'"
    by (simp add: filter_id_conv)
  then have "active_accounts s' = map (\<lambda>row. (fst row, balance (snd row))) (accounts s')"
    by (simp add: active_accounts_def)
  with all show ?thesis by (intro conjI)
qed

theorem all_accounts_active_witness:
  "accounts (fresh_store zero_cust_orc) = []
   \<and> generate_accounts (fresh_store zero_cust_orc) 0 zero_acct_orc = Inr demo_accounts_db
   \<and> active_accounts demo_accounts_db
       = map (\<lambda>row. (fst row, balance (snd row))) (accounts demo_accounts_db)"
proof -
  have h: "accounts (fresh_store zero_cust_orc) = []" by (rule fresh_store_tables)
  from all_accounts_active [OF h demo_accounts_db_ok]
  have "active_accounts demo_accounts_db
       = map (\<lambda>row. (fst row, balance (snd row))) (accounts demo_accounts_db)"
    by (rule conjunct2)
  with h demo_accounts_db_ok show ?thesis by (intro conjI)
qed

lemma primary_rows_rel:
  "r \<in> set (primary_rows today ids cids orc) \<Longrightarrow> is_primary r \<and> \<not> is_joint r"
  by (auto simp: primary_rows_def is_primary_def is_joint_def)

lemma joint_rows_rel:
  "r \<in> set (joint_rows today a orc) \<Longrightarrow> is_joint r \<and> \<not> is_primary r \<and> o_account_id r = a"
  by (auto simp: joint_rows_def is_primary_def is_joint_def)

lemma length_joint_rows: "length (joint_rows today a orc) = 3"
  by (simp add: joint_rows_def johnson_customers_def)

lemma filter_unique:
  "distinct (map f xs) \<Longrightarrow> a \<in> set (map f xs) \<Longrightarrow> length (filter (\<lambda>x. f x = a) xs) = 1"
proof (induction xs)
  case Nil
  then show ?case by simp
next
  case (Cons x xs)
  show ?case
  proof (cases "f x = a")
    case True
    with Cons.prems have "a \<notin> f ` set xs" by auto
    then have "filter (\<lambda>x. f x = a) xs = []" by (auto simp: filter_empty_conv)
    with True show ?thesis by simp
  next
    case False
    with Cons show ?thesis by auto
  qed
qed

lemma owners_fresh:
  assumes "generate_accounts (fresh_store co) today ao = Inr s'"
  shows "\<exists>rows. 500 \<le> length rows
           \<and> accounts s' = zip (rowids (length rows)) rows
           \<and> customers s' = zip (rowids 500) (customer_rows 500 co)
           \<and> account_customers s' =
               primary_rows today (rowids (length rows)) (rowids 500) ao
               @ joint_rows today 151 ao"
proof -
  from generate_accounts_fresh_total [of today co ao] obtain rows where
    r: "account_rows today (map fst (banks (fresh_store co))) (rowids 500) ao = Inr rows"
    by blast
  from generate_accounts_fresh [OF r] assms
  have n: "500 \<le> length rows"
    and s': "s' = (fresh_store co)\<lparr> accounts := zip (rowids (length rows)) rows,
                  account_customers :=
                    primary_rows today (rowids (length rows)) (rowids 500) ao
                    @ joint_rows today 151 ao \<rparr>"
    by simp_all
  from s' have "customers s' = zip (rowids 500) (customer_rows 500 co)"
    by (simp add: fresh_store_tables(1))
  with n s' show ?thesis by auto
qed

lemma owner_counts:
  assumes ac: "account_customers s' =
               primary_rows today (rowids n) (rowids 500) ao @ joint_rows today 151 ao"
    and a: "a \<in> set (rowids n)"
  shows "length (filter is_primary (owners_of s' a)) = 1"
    and "length (filter is_joint (owners_of s' a)) = (if a = 151 then 3 else 0)"
    and "length (owners_of s' a) = (if a = 151 then 4 else 1)"
proof -
  let ?P = "primary_rows today (rowids n) (rowids 500) ao"
  let ?J = "joint_rows today 151 ao"
  let ?fa = "\<lambda>r. o_account_id r = a"
  have o: "owners_of s' a = filter ?fa ?P @ filter ?fa ?J"
    by (simp add: owners_of_def ac)
  have "distinct (map o_account_id ?P)" "a \<in> set (map o_account_id ?P)"
    using a by (simp_all only: primary_rows_accounts distinct_rowids)
  then have p1: "length (filter ?fa ?P) = 1" by (rule filter_unique)
  have pp: "filter is_primary (filter ?fa ?P) = filter ?fa ?P"
    by (auto simp: filter_id_conv simp del: filter_filter dest: primary_rows_rel)
  have pj: "filter is_joint (filter ?fa ?P) = []"
    by (auto simp: filter_empty_conv simp del: filter_filter dest: primary_rows_rel)
  have jp: "filter is_primary (filter ?fa ?J) = []"
    by (auto simp: filter_empty_conv simp del: filter_filter dest: joint_rows_rel)
  have jj: "filter is_joint (filter ?fa ?J) = filter ?fa ?J"
    by (auto simp: filter_id_conv simp del: filter_filter dest: joint_rows_rel)
  have jall: "filter is_joint ?J = ?J"
    by (auto simp: filter_id_conv dest: joint_rows_rel)
  have j: "filter ?fa ?J = (if a = 151 then ?J else [])"
    by (auto simp: filter_id_conv filter_empty_conv dest: joint_rows_rel)
  show "length (filter is_primary (owners_of s' a)) = 1"
    by (simp add: o pp jp p1 del: filter_filter)
  show "length (filter is_joint (owners_of s' a)) = (if a = 151 then 3 else 0)"
    by (simp add: o pj jj jall j length_joint_rows del: filter_filter)
  show "length (owners_of s' a) = (if a = 151 then 4 else 1)"
    by (simp add: o p1 j length_joint_rows)
qed

lemma joint_keys:
  assumes ac: "account_customers s' =
               primary_rows today (rowids n) (rowids 500) ao @ joint_rows today 151 ao"
  shows "map okey (filter is_joint (account_customers s')) = [(151, 101), (151, 102), (151, 103)]"
proof -
  have "filter is_joint (primary_rows today (rowids n) (rowids 500) ao) = []"
    by (auto simp: filter_empty_conv dest: primary_rows_rel)
  moreover have "filter is_joint (joint_rows today 151 ao) = joint_rows today 151 ao"
    by (auto simp: filter_id_conv dest: joint_rows_rel)
  ultimately show ?thesis by (simp add: ac joint_rows_eq)
qed

lemma fresh_customer_nth:
  assumes "i < 500"
  shows "zip (rowids 500) (customer_rows 500 co) ! i = (Suc i, customer_row i (co i))"
  using assms by (simp add: length_rowids length_customer_rows nth_rowids customer_rows_nth)

lemma cluster_row:
  "i \<in> set [101, 102, 103] \<Longrightarrow>
   last_name (customer_row i d) = ''Johnson'' \<and> city (customer_row i d) = ''Miami''
   \<and> zip_code (customer_row i d) = ''33101''"
  by (auto simp: customer_row_def Let_def)

lemma plain_row:
  "i \<notin> set [101, 102, 103] \<Longrightarrow>
   last_name (customer_row i d) = cd_last_name d \<and> city (customer_row i d) = cd_city d
   \<and> zip_code (customer_row i d) = cd_zip d"
  by (auto simp: customer_row_def Let_def)


text \<open>
  Claim C6. After the account stage of the run with 500 customers, every account has exactly
  one PRIMARY row and only account 151 (position 150) has more rows: three JOINT rows, four
  owners in all. The JOINT rows name the customer ids 101, 102 and 103. The identity cluster,
  however, is generated at the ordinal positions 101, 102 and 103, whose customer ids are
  102, 103 and 104: customer 101 is the ordinary customer of position 100, and cluster member
  104 has no JOINT row.
\<close>

theorem joint_owners_off_by_one:
  assumes "generate_accounts (fresh_store co) today ao = Inr s'"
  shows "map okey (filter is_joint (account_customers s')) = [(151, 101), (151, 102), (151, 103)]
     \<and> map (\<lambda>i. fst (customers s' ! i)) [101, 102, 103] = [102, 103, 104]
     \<and> (\<forall>i \<in> set [101, 102, 103].
           last_name (snd (customers s' ! i)) = ''Johnson''
           \<and> city (snd (customers s' ! i)) = ''Miami''
           \<and> zip_code (snd (customers s' ! i)) = ''33101'')
     \<and> fst (customers s' ! 100) = 101
     \<and> last_name (snd (customers s' ! 100)) = cd_last_name (co 100)
     \<and> city (snd (customers s' ! 100)) = cd_city (co 100)
     \<and> (\<forall>a \<in> set (map fst (accounts s')).
           length (filter is_primary (owners_of s' a)) = 1
           \<and> length (filter is_joint (owners_of s' a)) = (if a = 151 then 3 else 0)
           \<and> length (owners_of s' a) = (if a = 151 then 4 else 1))"
proof -
  from owners_fresh [OF assms] obtain rows where
    n: "500 \<le> length rows"
    and acc: "accounts s' = zip (rowids (length rows)) rows"
    and cus: "customers s' = zip (rowids 500) (customer_rows 500 co)"
    and own: "account_customers s' =
               primary_rows today (rowids (length rows)) (rowids 500) ao
               @ joint_rows today 151 ao"
    by blast
  have nth: "\<And>i. i < 500 \<Longrightarrow> customers s' ! i = (Suc i, customer_row i (co i))"
    by (simp only: cus fresh_customer_nth)
  have 1: "map okey (filter is_joint (account_customers s'))
           = [(151, 101), (151, 102), (151, 103)]"
    using own by (rule joint_keys)
  have 2: "map (\<lambda>i. fst (customers s' ! i)) [101, 102, 103] = [102, 103, 104]"
    by (simp add: nth)
  have 3: "\<forall>i \<in> set [101, 102, 103].
           last_name (snd (customers s' ! i)) = ''Johnson''
           \<and> city (snd (customers s' ! i)) = ''Miami''
           \<and> zip_code (snd (customers s' ! i)) = ''33101''"
  proof
    fix i :: nat assume i: "i \<in> set [101, 102, 103]"
    then have "i < 500" by auto
    with cluster_row [OF i, of "co i"] show
      "last_name (snd (customers s' ! i)) = ''Johnson''
           \<and> city (snd (customers s' ! i)) = ''Miami''
           \<and> zip_code (snd (customers s' ! i)) = ''33101''"
      by (simp add: nth)
  qed
  have 4: "fst (customers s' ! 100) = 101" by (simp add: nth)
  have "(100::nat) \<notin> set [101, 102, 103]" by simp
  from plain_row [OF this, of "co 100"]
  have 5: "last_name (snd (customers s' ! 100)) = cd_last_name (co 100)"
    and 6: "city (snd (customers s' ! 100)) = cd_city (co 100)"
    by (simp_all add: nth)
  have ids: "map fst (accounts s') = rowids (length rows)"
    by (simp add: acc length_rowids)
  have 7: "\<forall>a \<in> set (map fst (accounts s')).
           length (filter is_primary (owners_of s' a)) = 1
           \<and> length (filter is_joint (owners_of s' a)) = (if a = 151 then 3 else 0)
           \<and> length (owners_of s' a) = (if a = 151 then 4 else 1)"
    unfolding ids using owner_counts [OF own] by blast
  from 1 2 3 4 5 6 7 show ?thesis by (intro conjI)
qed

theorem joint_owners_off_by_one_witness:
  "generate_accounts (fresh_store zero_cust_orc) 0 zero_acct_orc = Inr demo_accounts_db
   \<and> map okey (filter is_joint (account_customers demo_accounts_db))
       = [(151, 101), (151, 102), (151, 103)]
   \<and> fst (customers demo_accounts_db ! 100) = 101
   \<and> last_name (snd (customers demo_accounts_db ! 100)) = ''Smith''
   \<and> map (\<lambda>i. fst (customers demo_accounts_db ! i)) [101, 102, 103] = [102, 103, 104]"
proof -
  note t = joint_owners_off_by_one [OF demo_accounts_db_ok]
  from t have 1: "map okey (filter is_joint (account_customers demo_accounts_db))
       = [(151, 101), (151, 102), (151, 103)]" by (rule conjunct1)
  from t have 2: "fst (customers demo_accounts_db ! 100) = 101" by blast
  from t have "last_name (snd (customers demo_accounts_db ! 100)) = cd_last_name (zero_cust_orc 100)"
    by blast
  then have 3: "last_name (snd (customers demo_accounts_db ! 100)) = ''Smith''"
    by (simp add: zero_cust_orc_def zero_cust_draw_def)
  from t have 4: "map (\<lambda>i. fst (customers demo_accounts_db ! i)) [101, 102, 103] = [102, 103, 104]"
    by blast
  from demo_accounts_db_ok 1 2 3 4 show ?thesis by (intro conjI)
qed

section \<open>Transactions: properties\<close>

lemma transaction_row_account: "t_account_id (transaction_row c250 now i d sel) = fst sel"
  by (simp add: transaction_row_def Let_def)

lemma transaction_row_balance:
  "balance_after (transaction_row c250 now i d sel) =
     txn_balance_after (transaction_type (transaction_row c250 now i d sel)) (snd sel)
       (t_amount (transaction_row c250 now i d sel))"
  by (simp add: transaction_row_def Let_def)

lemma transaction_row_suspicious:
  assumes "suspicious c250 i (fst sel)"
  shows "transaction_type (transaction_row c250 now i d sel) = ''WITHDRAWAL''"
    and "is_flagged (transaction_row c250 now i d sel) = 1"
    and "t_amount (transaction_row c250 now i d sel) = uniform 495 499 (td_amount d)"
    and "transaction_date (transaction_row c250 now i d sel)
         = now - (30 * 86400 + (int i - 2000) * 3600)"
  using assms by (simp_all add: transaction_row_def Let_def txn_type_def txn_amount_def txn_date_def)

lemma transaction_row_plain:
  assumes "\<not> in_window i c250"
  shows "is_flagged (transaction_row c250 now i d sel) = 0"
  using assms by (simp add: transaction_row_def Let_def suspicious_def)

lemma find_account_some:
  "a \<in> fst ` set accts \<Longrightarrow> \<exists>p. find_account accts a = Some p \<and> fst p = a \<and> p \<in> set accts"
  by (induction accts) auto

lemma find_account_mem: "find_account accts a = Some p \<Longrightarrow> p \<in> set accts \<and> fst p = a"
  by (induction accts) (auto split: if_splits)

lemma select_account_found:
  assumes "accts \<noteq> []" and "c250 \<noteq> [] \<longrightarrow> find_account accts (hd c250) = Some p"
  shows "select_account accts c250 i d prev =
           Inr (if in_window i c250 then p else pick accts (td_account d))"
  using assms by (simp add: select_account_def random_choice_def in_window_def)

lemma txn_loop_found:
  assumes "accts \<noteq> []" and "c250 \<noteq> [] \<longrightarrow> find_account accts (hd c250) = Some p"
  shows "txn_loop accts c250 clock orc idxs prev =
           Inr (map (\<lambda>i. transaction_row c250 (clock i) i (orc i)
                           (if in_window i c250 then p else pick accts (td_account (orc i))))
                    idxs)"
proof (induction idxs arbitrary: prev)
  case Nil
  show ?case by simp
next
  case (Cons i rest)
  show ?case
    by (simp add: select_account_found [OF assms] Cons.IH)
qed

lemma select_account_mem:
  assumes "select_account accts c250 i d prev = Inr sel" and "\<And>p. prev = Some p \<Longrightarrow> p \<in> set accts"
  shows "sel \<in> set accts"
proof (cases "in_window i c250")
  case True
  with assms show ?thesis
    by (auto simp: select_account_def split: option.splits dest: find_account_mem)
next
  case False
  with assms(1) have "accts \<noteq> []" "sel = pick accts (td_account d)"
    by (auto simp: select_account_def random_choice_def split: if_splits)
  then show ?thesis by (simp add: pick_mem)
qed

lemma txn_loop_all:
  assumes P: "\<And>i sel. sel \<in> set accts \<Longrightarrow> P (transaction_row c250 (clock i) i (orc i) sel)"
    and "txn_loop accts c250 clock orc idxs prev = Inr ts"
    and "\<And>p. prev = Some p \<Longrightarrow> p \<in> set accts"
  shows "length ts = length idxs \<and> (\<forall>t \<in> set ts. P t)"
  using assms(2,3)
proof (induction idxs arbitrary: prev ts)
  case Nil
  then show ?case by simp
next
  case (Cons i rest)
  from Cons.prems(1) obtain sel ts' where
    s: "select_account accts c250 i (orc i) prev = Inr sel"
    and l: "txn_loop accts c250 clock orc rest (Some sel) = Inr ts'"
    and t: "ts = transaction_row c250 (clock i) i (orc i) sel # ts'"
    by (auto split: sum.splits)
  from select_account_mem [OF s Cons.prems(2)] have m: "sel \<in> set accts" by simp
  from Cons.IH [OF l] m have "length ts' = length rest \<and> (\<forall>t \<in> set ts'. P t)"
    by simp
  with t P [OF m, of i] show ?case by simp
qed


lemma length_primary_rows: "length (primary_rows today ids cids orc) = length ids"
  by (simp add: primary_rows_def)

lemma concat_first_nonempty:
  assumes "\<forall>y \<in> set ys. G y = []" and "G x \<noteq> []"
  shows "concat (map G (ys @ x # zs)) \<noteq> [] \<and> hd (concat (map G (ys @ x # zs))) = hd (G x)"
proof -
  from assms(1) have c: "concat (map G ys) = []" by simp
  from assms(2) show ?thesis by (simp add: c)
qed

lemma c250_fresh:
  assumes acc: "accounts s = zip (rowids n) rows" and len: "length rows = n" and n: "500 \<le> n"
    and own: "account_customers s =
                primary_rows today (rowids n) (rowids 500) ao @ joint_rows today 151 ao"
  shows "customer_250_accounts s \<noteq> [] \<and> hd (customer_250_accounts s) = 250"
proof -
  let ?P = "primary_rows today (rowids n) (rowids 500) ao"
  let ?J = "joint_rows today 151 ao"
  let ?G = "\<lambda>row :: nat \<times> account. map (\<lambda>ac. fst row)
              (filter (\<lambda>ac. o_account_id ac = fst row \<and> o_customer_id ac = 250)
                      (account_customers s))"
  let ?xs = "accounts s"
  have lx: "length ?xs = n" by (simp add: acc len length_rowids)
  have nth: "\<And>i. i < n \<Longrightarrow> fst (?xs ! i) = Suc i"
    by (simp add: acc len length_rowids nth_rowids)
  have split: "?xs = take 249 ?xs @ ?xs ! 249 # drop (Suc 249) ?xs"
    by (rule id_take_nth_drop) (use n lx in simp)
  have before: "\<forall>y \<in> set (take 249 ?xs). ?G y = []"
  proof
    fix y assume "y \<in> set (take 249 ?xs)"
    then obtain i where i: "i < 249" and y: "y = ?xs ! i"
      using n lx by (auto simp: in_set_conv_nth)
    from i n nth [of i] y have fy: "fst y = Suc i" by simp
    have "\<And>ac. ac \<in> set (account_customers s) \<Longrightarrow>
            \<not> (o_account_id ac = Suc i \<and> o_customer_id ac = 250)"
    proof -
      fix ac assume "ac \<in> set (account_customers s)"
      then consider "ac \<in> set ?P" | "ac \<in> set ?J" by (auto simp: own)
      then show "\<not> (o_account_id ac = Suc i \<and> o_customer_id ac = 250)"
      proof cases
        case 1
        from primary_rows_mem [OF 1] obtain k where
          "o_account_id ac = Suc k" "o_customer_id ac = Suc (k mod 500)" by blast
        with i show ?thesis by auto
      next
        case 2
        then have "okey ac \<in> set (map okey ?J)" by simp
        then have "okey ac \<in> {(151, 101), (151, 102), (151, 103)}"
          by (simp only: joint_rows_eq) simp
        then show ?thesis by (auto simp: okey_def)
      qed
    qed
    then show "?G y = []" by (simp add: fy filter_empty_conv)
  qed
  have at: "?G (?xs ! 249) \<noteq> [] \<and> hd (?G (?xs ! 249)) = 250"
  proof -
    have f: "fst (?xs ! 249) = 250" using nth [of 249] n by simp
    have k: "249 < length (rowids n)" using n by (simp add: length_rowids)
    have "?P ! 249 \<in> set ?P"
      using n by (simp add: length_primary_rows length_rowids)
    moreover have "o_account_id (?P ! 249) = 250 \<and> o_customer_id (?P ! 249) = 250"
      using n by (simp add: primary_rows_nth [OF k] length_rowids nth_rowids)
    ultimately have "filter (\<lambda>ac. o_account_id ac = 250 \<and> o_customer_id ac = 250)
                      (account_customers s) \<noteq> []"
      by (auto simp: own filter_empty_conv)
    then show ?thesis by (simp add: f hd_map)
  qed
  have "customer_250_accounts s = concat (map ?G (take 249 ?xs @ ?xs ! 249 # drop (Suc 249) ?xs))"
    using split by (simp add: customer_250_accounts_def)
  with concat_first_nonempty [of "take 249 ?xs" ?G "?xs ! 249" "drop (Suc 249) ?xs"] before at
  show ?thesis by simp
qed

lemma generated_accounts_active:
  assumes "accounts s = []" and "generate_accounts s today orc = Inr s'"
  shows "(\<forall>row \<in> set (accounts s').
            a_status (snd row) = ''ACTIVE'' \<and> closed_date (snd row) = None)
         \<and> active_accounts s' = map (\<lambda>row. (fst row, balance (snd row))) (accounts s')"
proof -
  from generate_accounts_accounts [OF assms(2)] assms(1) obtain rows where
    r: "account_rows today (map fst (banks s)) (map fst (customers s)) orc = Inr rows"
    and a: "accounts s' = zip (rowids (length rows)) rows"
    by (auto simp: insert_many_empty)
  have all: "\<forall>row \<in> set (accounts s').
            a_status (snd row) = ''ACTIVE'' \<and> closed_date (snd row) = None"
  proof
    fix row assume "row \<in> set (accounts s')"
    with a have "snd row \<in> set rows" by (metis in_set_zipE prod.collapse)
    with r show "a_status (snd row) = ''ACTIVE'' \<and> closed_date (snd row) = None"
      by (rule account_rows_ok)
  qed
  then have "filter (\<lambda>row. a_status (snd row) = ''ACTIVE'') (accounts s') = accounts s'"
    by (simp add: filter_id_conv)
  then have "active_accounts s' = map (\<lambda>row. (fst row, balance (snd row))) (accounts s')"
    by (simp add: active_accounts_def)
  with all show ?thesis by (intro conjI)
qed

lemma window_setup:
  assumes "generate_accounts (fresh_store co) today ao = Inr s"
  shows "\<exists>b. customer_250_accounts s \<noteq> [] \<and> hd (customer_250_accounts s) = 250
            \<and> active_accounts s \<noteq> [] \<and> active_accounts s = stored_balances s
            \<and> distinct (map fst (stored_balances s))
            \<and> find_account (active_accounts s) 250 = Some (250, b)
            \<and> (250, b) \<in> set (stored_balances s)
            \<and> transactions s = []"
proof -
  from owners_fresh [OF assms] obtain rows where
    n: "500 \<le> length rows"
    and acc: "accounts s = zip (rowids (length rows)) rows"
    and own: "account_customers s =
               primary_rows today (rowids (length rows)) (rowids 500) ao
               @ joint_rows today 151 ao"
    by blast
  from c250_fresh [OF acc refl n own]
  have c: "customer_250_accounts s \<noteq> [] \<and> hd (customer_250_accounts s) = 250" .
  from generated_accounts_active [OF fresh_store_tables(3) assms]
  have act: "active_accounts s = stored_balances s" by (simp add: stored_balances_def)
  have ids: "map fst (stored_balances s) = rowids (length rows)"
    by (simp add: stored_balances_def acc comp_def length_rowids)
  then have d: "distinct (map fst (stored_balances s))" by (simp add: distinct_rowids)
  have "250 \<in> set (rowids (length rows))" using n by (simp add: set_rowids)
  then have "250 \<in> fst ` set (active_accounts s)"
    using ids act by (metis set_map)
  from find_account_some [OF this] obtain p where
    p: "find_account (active_accounts s) 250 = Some p" "fst p = 250"
       "p \<in> set (active_accounts s)" by blast
  then have ne: "active_accounts s \<noteq> []" by auto
  from p have p': "p = (250, snd p)" by (cases p) simp
  have tr: "transactions s = []"
  proof -
    from generate_accounts_fresh_total [of today co ao] obtain rs where
      "account_rows today (map fst (banks (fresh_store co))) (rowids 500) ao = Inr rs" by blast
    from generate_accounts_fresh(1) [OF this] assms show ?thesis
      by (auto simp: fresh_store_def generate_customers_def generate_banks_def empty_db_def)
  qed
  from c ne act d p p' tr show ?thesis by (metis)
qed

lemma transaction_rows_fresh:
  assumes "generate_accounts (fresh_store co) today ao = Inr s"
    and "find_account (active_accounts s) 250 = Some (250, b)"
    and "customer_250_accounts s \<noteq> []" and "hd (customer_250_accounts s) = 250"
    and "active_accounts s \<noteq> []"
  shows "transaction_rows s count clock orc =
           Inr (map (\<lambda>i. transaction_row (customer_250_accounts s) (clock i) i (orc i)
                           (if in_window i (customer_250_accounts s) then (250, b)
                            else pick (active_accounts s) (td_account (orc i))))
                    [0 ..< count])"
  unfolding transaction_rows_def
  by (rule txn_loop_found) (use assms in simp_all)


lemma window_rows:
  assumes "generate_accounts (fresh_store co) today ao = Inr s"
  shows "\<exists>ts b. transaction_rows s count clock orc = Inr ts \<and> length ts = count
          \<and> customer_250_accounts s \<noteq> [] \<and> hd (customer_250_accounts s) = 250
          \<and> stored_balance s 250 = Some b
          \<and> (\<forall>i < count.
               t_account_id (ts ! i) \<in> fst ` set (stored_balances s)
               \<and> (2000 \<le> i \<and> i \<le> 2050 \<longrightarrow>
                    t_account_id (ts ! i) = 250
                    \<and> transaction_type (ts ! i) = ''WITHDRAWAL''
                    \<and> is_flagged (ts ! i) = 1
                    \<and> 495 \<le> t_amount (ts ! i) \<and> t_amount (ts ! i) < 499
                    \<and> balance_after (ts ! i) = b - t_amount (ts ! i)
                    \<and> transaction_date (ts ! i) = clock i - (30 * 86400 + (int i - 2000) * 3600))
               \<and> (\<not> (2000 \<le> i \<and> i \<le> 2050) \<longrightarrow> is_flagged (ts ! i) = 0)
               \<and> reference_number (ts ! i) = (clock i div 86400, i))"
proof -
  from window_setup [OF assms] obtain b where
    c: "customer_250_accounts s \<noteq> []" and h: "hd (customer_250_accounts s) = 250"
    and ne: "active_accounts s \<noteq> []" and act: "active_accounts s = stored_balances s"
    and d: "distinct (map fst (stored_balances s))"
    and f: "find_account (active_accounts s) 250 = Some (250, b)"
    and m: "(250, b) \<in> set (stored_balances s)"
    by blast
  let ?c = "customer_250_accounts s"
  let ?sel = "\<lambda>i. if in_window i ?c then (250, b)
                   else pick (active_accounts s) (td_account (orc i))"
  let ?row = "\<lambda>i. transaction_row ?c (clock i) i (orc i) (?sel i)"
  let ?ts = "map ?row [0 ..< count]"
  have rows: "transaction_rows s count clock orc = Inr ?ts"
    using assms f c h ne by (rule transaction_rows_fresh)
  have sb: "stored_balance s 250 = Some b"
    unfolding stored_balance_def using d m by (rule map_of_is_SomeI)
  have each: "\<forall>i < count.
               t_account_id (?ts ! i) \<in> fst ` set (stored_balances s)
               \<and> (2000 \<le> i \<and> i \<le> 2050 \<longrightarrow>
                    t_account_id (?ts ! i) = 250
                    \<and> transaction_type (?ts ! i) = ''WITHDRAWAL''
                    \<and> is_flagged (?ts ! i) = 1
                    \<and> 495 \<le> t_amount (?ts ! i) \<and> t_amount (?ts ! i) < 499
                    \<and> balance_after (?ts ! i) = b - t_amount (?ts ! i)
                    \<and> transaction_date (?ts ! i) = clock i - (30 * 86400 + (int i - 2000) * 3600))
               \<and> (\<not> (2000 \<le> i \<and> i \<le> 2050) \<longrightarrow> is_flagged (?ts ! i) = 0)
               \<and> reference_number (?ts ! i) = (clock i div 86400, i)"
  proof (intro allI impI)
    fix i assume i: "i < count"
    then have nth: "?ts ! i = ?row i" by simp
    have selm: "?sel i \<in> set (stored_balances s)"
      using m ne act pick_mem [of "active_accounts s" "td_account (orc i)"] by auto
    have 1: "t_account_id (?row i) \<in> fst ` set (stored_balances s)"
      using selm by (simp only: transaction_row_account) (rule imageI)
    have 2: "2000 \<le> i \<and> i \<le> 2050 \<longrightarrow>
                    t_account_id (?row i) = 250
                    \<and> transaction_type (?row i) = ''WITHDRAWAL''
                    \<and> is_flagged (?row i) = 1
                    \<and> 495 \<le> t_amount (?row i) \<and> t_amount (?row i) < 499
                    \<and> balance_after (?row i) = b - t_amount (?row i)
                    \<and> transaction_date (?row i) = clock i - (30 * 86400 + (int i - 2000) * 3600)"
    proof
      assume w: "2000 \<le> i \<and> i \<le> 2050"
      with c have iw: "in_window i ?c" by (simp add: in_window_def)
      then have sel: "?sel i = (250, b)" by simp
      have susp: "suspicious ?c i (fst (250::nat, b))"
        using iw h by (simp add: suspicious_def)
      note facts = transaction_row_suspicious [OF susp, of "clock i" "orc i"]
      have lo: "495 \<le> uniform 495 499 (td_amount (orc i))" by (rule uniform_lower) simp
      have hi: "uniform 495 499 (td_amount (orc i)) < 499" by (rule uniform_upper) simp
      have ba: "balance_after (transaction_row ?c (clock i) i (orc i) (250, b))
                = b - t_amount (transaction_row ?c (clock i) i (orc i) (250, b))"
        by (simp add: transaction_row_balance facts(1) txn_balance_after_def)
      show "t_account_id (?row i) = 250
                    \<and> transaction_type (?row i) = ''WITHDRAWAL''
                    \<and> is_flagged (?row i) = 1
                    \<and> 495 \<le> t_amount (?row i) \<and> t_amount (?row i) < 499
                    \<and> balance_after (?row i) = b - t_amount (?row i)
                    \<and> transaction_date (?row i) = clock i - (30 * 86400 + (int i - 2000) * 3600)"
        unfolding sel using facts lo hi ba by (simp add: transaction_row_account)
    qed
    have 3: "\<not> (2000 \<le> i \<and> i \<le> 2050) \<longrightarrow> is_flagged (?row i) = 0"
    proof
      assume "\<not> (2000 \<le> i \<and> i \<le> 2050)"
      then have "\<not> in_window i ?c" by (auto simp: in_window_def)
      then show "is_flagged (?row i) = 0" by (rule transaction_row_plain)
    qed
    have 4: "reference_number (?row i) = (clock i div 86400, i)"
      by (simp add: transaction_row_def Let_def)
    from 1 2 3 4 show "t_account_id (?ts ! i) \<in> fst ` set (stored_balances s)
               \<and> (2000 \<le> i \<and> i \<le> 2050 \<longrightarrow>
                    t_account_id (?ts ! i) = 250
                    \<and> transaction_type (?ts ! i) = ''WITHDRAWAL''
                    \<and> is_flagged (?ts ! i) = 1
                    \<and> 495 \<le> t_amount (?ts ! i) \<and> t_amount (?ts ! i) < 499
                    \<and> balance_after (?ts ! i) = b - t_amount (?ts ! i)
                    \<and> transaction_date (?ts ! i) = clock i - (30 * 86400 + (int i - 2000) * 3600))
               \<and> (\<not> (2000 \<le> i \<and> i \<le> 2050) \<longrightarrow> is_flagged (?ts ! i) = 0)
               \<and> reference_number (?ts ! i) = (clock i div 86400, i)"
      unfolding nth by (intro conjI)
  qed
  have "length ?ts = count" by simp
  with rows c h sb each show ?thesis by blast
qed


text \<open>
  Claim C2. With 500 customers and 5000 transactions, the 51 transactions of the loop indices
  2000 to 2050 are all placed against the first account of customer 250 (account 250, the
  head of the ownership query), are withdrawals, are flagged, have an amount in [495, 499) and
  a timestamp 30 days and (index - 2000) hours before the clock reading of their iteration;
  every transaction of another index is not flagged.
\<close>

theorem structuring_window:
  assumes "generate_accounts (fresh_store co) today ao = Inr s"
  shows "\<exists>ts. transaction_rows s 5000 clock orc = Inr ts \<and> length ts = 5000
          \<and> customer_250_accounts s \<noteq> []
          \<and> (\<forall>i < 5000.
               (2000 \<le> i \<and> i \<le> 2050 \<longrightarrow>
                    t_account_id (ts ! i) = hd (customer_250_accounts s)
                    \<and> transaction_type (ts ! i) = ''WITHDRAWAL''
                    \<and> is_flagged (ts ! i) = 1
                    \<and> 495 \<le> t_amount (ts ! i) \<and> t_amount (ts ! i) < 499
                    \<and> transaction_date (ts ! i) = clock i - (30 * 86400 + (int i - 2000) * 3600))
               \<and> (\<not> (2000 \<le> i \<and> i \<le> 2050) \<longrightarrow> is_flagged (ts ! i) = 0))"
proof -
  from window_rows [OF assms, of 5000 clock orc] obtain ts b where
    r: "transaction_rows s 5000 clock orc = Inr ts" "length ts = 5000"
       "customer_250_accounts s \<noteq> []"
    and h: "hd (customer_250_accounts s) = 250"
    and e: "\<forall>i < 5000.
               t_account_id (ts ! i) \<in> fst ` set (stored_balances s)
               \<and> (2000 \<le> i \<and> i \<le> 2050 \<longrightarrow>
                    t_account_id (ts ! i) = 250
                    \<and> transaction_type (ts ! i) = ''WITHDRAWAL''
                    \<and> is_flagged (ts ! i) = 1
                    \<and> 495 \<le> t_amount (ts ! i) \<and> t_amount (ts ! i) < 499
                    \<and> balance_after (ts ! i) = b - t_amount (ts ! i)
                    \<and> transaction_date (ts ! i) = clock i - (30 * 86400 + (int i - 2000) * 3600))
               \<and> (\<not> (2000 \<le> i \<and> i \<le> 2050) \<longrightarrow> is_flagged (ts ! i) = 0)
               \<and> reference_number (ts ! i) = (clock i div 86400, i)"
    by blast
  from e have "\<forall>i < 5000.
               (2000 \<le> i \<and> i \<le> 2050 \<longrightarrow>
                    t_account_id (ts ! i) = hd (customer_250_accounts s)
                    \<and> transaction_type (ts ! i) = ''WITHDRAWAL''
                    \<and> is_flagged (ts ! i) = 1
                    \<and> 495 \<le> t_amount (ts ! i) \<and> t_amount (ts ! i) < 499
                    \<and> transaction_date (ts ! i) = clock i - (30 * 86400 + (int i - 2000) * 3600))
               \<and> (\<not> (2000 \<le> i \<and> i \<le> 2050) \<longrightarrow> is_flagged (ts ! i) = 0)"
    unfolding h by blast
  with r show ?thesis by blast
qed

lemma demo_txns_ok:
  "transaction_rows demo_accounts_db 5000 zero_clock zero_txn_orc = Inr demo_txns"
  "generate_transactions demo_accounts_db 5000 zero_clock zero_txn_orc = Inr demo_txn_db"
  "stored_balances demo_txn_db = stored_balances demo_accounts_db"
proof -
  from window_rows [OF demo_accounts_db_ok, of 5000 zero_clock zero_txn_orc] obtain ts where
    r: "transaction_rows demo_accounts_db 5000 zero_clock zero_txn_orc = Inr ts" by blast
  then show 1: "transaction_rows demo_accounts_db 5000 zero_clock zero_txn_orc = Inr demo_txns"
    by (simp add: demo_txns_def)
  from r have g: "generate_transactions demo_accounts_db 5000 zero_clock zero_txn_orc
         = Inr (demo_accounts_db\<lparr> transactions :=
                  insert_many (transactions demo_accounts_db) ts \<rparr>)"
    by (simp add: generate_transactions_def)
  then show "generate_transactions demo_accounts_db 5000 zero_clock zero_txn_orc = Inr demo_txn_db"
    by (simp add: demo_txn_db_def)
  from g show "stored_balances demo_txn_db = stored_balances demo_accounts_db"
    by (simp add: demo_txn_db_def stored_balances_def)
qed

theorem structuring_window_witness:
  "generate_accounts (fresh_store zero_cust_orc) 0 zero_acct_orc = Inr demo_accounts_db
   \<and> transaction_rows demo_accounts_db 5000 zero_clock zero_txn_orc = Inr demo_txns
   \<and> is_flagged (demo_txns ! 2000) = 1
   \<and> transaction_type (demo_txns ! 2000) = ''WITHDRAWAL''
   \<and> is_flagged (demo_txns ! 0) = 0"
proof -
  from structuring_window [OF demo_accounts_db_ok, of zero_clock zero_txn_orc] demo_txns_ok(1)
  have e: "\<forall>i < 5000.
               (2000 \<le> i \<and> i \<le> 2050 \<longrightarrow>
                    t_account_id (demo_txns ! i) = hd (customer_250_accounts demo_accounts_db)
                    \<and> transaction_type (demo_txns ! i) = ''WITHDRAWAL''
                    \<and> is_flagged (demo_txns ! i) = 1
                    \<and> 495 \<le> t_amount (demo_txns ! i) \<and> t_amount (demo_txns ! i) < 499
                    \<and> transaction_date (demo_txns ! i)
                        = zero_clock i - (30 * 86400 + (int i - 2000) * 3600))
               \<and> (\<not> (2000 \<le> i \<and> i \<le> 2050) \<longrightarrow> is_flagged (demo_txns ! i) = 0)"
    by auto
  from e [rule_format, of 2000] have a: "is_flagged (demo_txns ! 2000) = 1"
    and b: "transaction_type (demo_txns ! 2000) = ''WITHDRAWAL''" by simp_all
  from e [rule_format, of 0] have c: "is_flagged (demo_txns ! 0) = 0" by simp
  from demo_accounts_db_ok demo_txns_ok(1) a b c show ?thesis by (intro conjI)
qed

lemma demo_window:
  "\<exists>b. stored_balance demo_accounts_db 250 = Some b
     \<and> (\<forall>i < 5000.
           (2000 \<le> i \<and> i \<le> 2050 \<longrightarrow>
                t_account_id (demo_txns ! i) = 250
                \<and> 495 \<le> t_amount (demo_txns ! i)
                \<and> balance_after (demo_txns ! i) = b - t_amount (demo_txns ! i)
                \<and> transaction_date (demo_txns ! i)
                    = zero_clock i - (30 * 86400 + (int i - 2000) * 3600)))"
proof -
  from window_rows [OF demo_accounts_db_ok, of 5000 zero_clock zero_txn_orc] demo_txns_ok(1)
  show ?thesis by auto
qed

text \<open>
  Claim C1, as stated: each balance_after continues from the balance left by the previous
  transaction on the same account, and the last one equals the stored balance. In the run
  with the all-zero draws the window transactions 2000 and 2001 are both on account 250, and
  2001 is the earlier of the two; the balance_after of 2000 is not the balance_after of 2001
  minus its own amount, and it is not the balance stored for account 250 after the pass.
\<close>

theorem running_balance_counterexample:
  "t_account_id (demo_txns ! 2000) = 250
   \<and> t_account_id (demo_txns ! 2001) = 250
   \<and> transaction_date (demo_txns ! 2001) < transaction_date (demo_txns ! 2000)
   \<and> balance_after (demo_txns ! 2000)
        \<noteq> balance_after (demo_txns ! 2001) - t_amount (demo_txns ! 2000)
   \<and> stored_balance demo_txn_db 250 \<noteq> Some (balance_after (demo_txns ! 2000))"
proof -
  from demo_window obtain b where
    sb: "stored_balance demo_accounts_db 250 = Some b"
    and e: "\<forall>i < 5000.
           (2000 \<le> i \<and> i \<le> 2050 \<longrightarrow>
                t_account_id (demo_txns ! i) = 250
                \<and> 495 \<le> t_amount (demo_txns ! i)
                \<and> balance_after (demo_txns ! i) = b - t_amount (demo_txns ! i)
                \<and> transaction_date (demo_txns ! i)
                    = zero_clock i - (30 * 86400 + (int i - 2000) * 3600))"
    by blast
  from e [rule_format, of 2000] have
    a0: "t_account_id (demo_txns ! 2000) = 250" and m0: "495 \<le> t_amount (demo_txns ! 2000)"
    and b0: "balance_after (demo_txns ! 2000) = b - t_amount (demo_txns ! 2000)"
    and d0: "transaction_date (demo_txns ! 2000) = zero_clock 2000 - 30 * 86400"
    by simp_all
  from e [rule_format, of 2001] have
    a1: "t_account_id (demo_txns ! 2001) = 250" and m1: "495 \<le> t_amount (demo_txns ! 2001)"
    and b1: "balance_after (demo_txns ! 2001) = b - t_amount (demo_txns ! 2001)"
    and d1: "transaction_date (demo_txns ! 2001) = zero_clock 2001 - (30 * 86400 + 3600)"
    by simp_all
  from d0 d1 have 3: "transaction_date (demo_txns ! 2001) < transaction_date (demo_txns ! 2000)"
    by (simp add: zero_clock_def)
  from b0 b1 m1 have 4: "balance_after (demo_txns ! 2000)
        \<noteq> balance_after (demo_txns ! 2001) - t_amount (demo_txns ! 2000)"
    by simp
  have "stored_balance demo_txn_db 250 = Some b"
    using sb by (simp add: stored_balance_def demo_txns_ok(3))
  with b0 m0 have 5: "stored_balance demo_txn_db 250 \<noteq> Some (balance_after (demo_txns ! 2000))"
    by simp
  from a0 a1 3 4 5 show ?thesis by (intro conjI)
qed

lemma active_subset_stored: "set (active_accounts s) \<subseteq> set (stored_balances s)"
  by (auto simp: active_accounts_def stored_balances_def)

text \<open>
  Claim C1, amended: the pass reads the balance of an account once, before the loop, and never
  updates it. Every transaction's balance_after is the stored balance of its account plus the
  amount (DEPOSIT, INTEREST) or minus the amount (any other type), whatever was generated
  against the same account before, and the pass leaves every stored balance unchanged.
\<close>

theorem balance_after_from_stored_balance:
  assumes "generate_transactions s count clock orc = Inr s'"
  shows "stored_balances s' = stored_balances s
    \<and> (\<exists>ts. transaction_rows s count clock orc = Inr ts \<and> length ts = count
          \<and> (\<forall>t \<in> set ts. \<exists>b. (t_account_id t, b) \<in> set (stored_balances s)
                \<and> balance_after t =
                    (if transaction_type t \<in> set [''DEPOSIT'', ''INTEREST'']
                     then b + t_amount t else b - t_amount t)))"
proof -
  from assms obtain ts where
    r: "transaction_rows s count clock orc = Inr ts"
    and s': "s' = s\<lparr> transactions := insert_many (transactions s) ts \<rparr>"
    by (auto simp: generate_transactions_def split: sum.splits)
  let ?P = "\<lambda>t. \<exists>b. (t_account_id t, b) \<in> set (stored_balances s)
                \<and> balance_after t =
                    (if transaction_type t \<in> set [''DEPOSIT'', ''INTEREST'']
                     then b + t_amount t else b - t_amount t)"
  have P: "\<And>i sel. sel \<in> set (active_accounts s) \<Longrightarrow>
             ?P (transaction_row (customer_250_accounts s) (clock i) i (orc i) sel)"
  proof -
    fix i sel assume "sel \<in> set (active_accounts s)"
    then have "(fst sel, snd sel) \<in> set (stored_balances s)"
      using active_subset_stored [of s] by auto
    then show "?P (transaction_row (customer_250_accounts s) (clock i) i (orc i) sel)"
      by (subst transaction_row_balance, subst transaction_row_account)
         (auto simp: txn_balance_after_def)
  qed
  have "length ts = length [0 ..< count] \<and> (\<forall>t \<in> set ts. ?P t)"
    by (rule txn_loop_all [where P = ?P, OF P r [unfolded transaction_rows_def]]) simp_all
  then have "length ts = count \<and> (\<forall>t \<in> set ts. ?P t)" by simp
  with r have 2: "\<exists>ts. transaction_rows s count clock orc = Inr ts \<and> length ts = count
          \<and> (\<forall>t \<in> set ts. ?P t)" by blast
  from s' have 1: "stored_balances s' = stored_balances s" by (simp add: stored_balances_def)
  from 1 2 show ?thesis by (intro conjI)
qed

theorem balance_after_from_stored_balance_witness:
  "generate_transactions demo_accounts_db 5000 zero_clock zero_txn_orc = Inr demo_txn_db
   \<and> stored_balances demo_txn_db = stored_balances demo_accounts_db"
proof -
  from balance_after_from_stored_balance [OF demo_txns_ok(2)]
  have "stored_balances demo_txn_db = stored_balances demo_accounts_db" by (rule conjunct1)
  with demo_txns_ok(2) show ?thesis by (intro conjI)
qed

section \<open>The whole run: properties\<close>

lemma accounts_stage_store:
  assumes "generate_accounts (fresh_store co) today ao = Inr s"
  shows "length (customers s) = 500" "banks s \<noteq> []" "transactions s = []" "loans s = []"
proof -
  from generate_accounts_fresh_total [of today co ao] obtain rs where
    "account_rows today (map fst (banks (fresh_store co))) (rowids 500) ao = Inr rs" by blast
  from generate_accounts_fresh(1) [OF this] assms
  have s: "s = (fresh_store co)\<lparr> accounts := zip (rowids (length rs)) rs,
                  account_customers :=
                    primary_rows today (rowids (length rs)) (rowids 500) ao
                    @ joint_rows today 151 ao \<rparr>" by simp
  show "length (customers s) = 500" by (simp add: s fresh_store_sizes)
  show "banks s \<noteq> []" by (simp add: s fresh_store_sizes)
  show "transactions s = []"
    by (simp add: s fresh_store_def generate_customers_def generate_banks_def empty_db_def)
  show "loans s = []"
    by (simp add: s fresh_store_def generate_customers_def generate_banks_def empty_db_def)
qed







section \<open>The reversal of loan 150\<close>

lemma sequence_Inr_nth:
  "sequence xs = Inr vs \<Longrightarrow> k < length xs \<Longrightarrow> xs ! k = Inr (vs ! k)"
proof (induction xs arbitrary: vs k)
  case Nil
  then show ?case by simp
next
  case (Cons x xs)
  then show ?case by (cases k) (auto split: sum.splits)
qed

lemma loan_rows_nth:
  assumes "loan_rows s today orc = Inr rows" and "k < 200"
  shows "\<exists>cust. loan_row today (map fst (banks s)) cust (lo_loan orc k) = Inr (rows ! k)"
proof -
  from assms(1) obtain sampled where
    sm: "random_sample (loan_customers s) 200 (lo_sample orc) = Inr sampled"
    and sq: "sequence (map (\<lambda>(k, cust). loan_row today (map fst (banks s)) cust (lo_loan orc k))
                   (enumerate 0 sampled)) = Inr rows"
    by (auto simp: loan_rows_def split: sum.splits)
  from sm have "length sampled = 200"
    by (auto simp: random_sample_def length_sample_from split: if_splits)
  with assms(2) have k: "k < length sampled" by simp
  from sequence_Inr_nth [OF sq] k
  have "loan_row today (map fst (banks s)) (sampled ! k) (lo_loan orc k) = Inr (rows ! k)"
    by (simp add: nth_enumerate_eq)
  then show ?thesis by blast
qed

lemma loan_status_values: "loan_status c days \<in> set [''ACTIVE'', ''DEFAULTED'']"
  by (simp add: loan_status_def)

lemma loan_row_origination:
  assumes "loan_row today bank_ids cust d = Inr l"
  shows "origination_date l = date_between today 1825 0 (ld_orig d)"
    and "l_status l \<in> set [''ACTIVE'', ''DEFAULTED'']"
proof -
  from assms show "origination_date l = date_between today 1825 0 (ld_orig d)"
    by (auto simp: loan_row_def Let_def split: sum.splits)
  from loan_row_fields(1) [OF assms] loan_status_values
  show "l_status l \<in> set [''ACTIVE'', ''DEFAULTED'']" by (simp only:)
qed

lemma no_reversal_if_young:
  assumes d: "distinct (map fst t)" and m: "(150, l) \<in> set t"
    and y: "months_since_origination today l < 16"
  shows "reversed_rows (payment_rows t today orc) = []"
proof -
  have "\<And>p. p \<in> set (payment_rows t today orc) \<Longrightarrow> \<not> reversed p"
  proof
    fix p assume p: "p \<in> set (payment_rows t today orc)" and r: "reversed p"
    from payment_rows_mem [OF p] obtain k month where
      k: "k < length (selected_loans t)"
      and mo: "month < nat (min (months_since_origination today (snd (selected_loans t ! k))) 36)"
      and row: "payment_row (fst (selected_loans t ! k)) (snd (selected_loans t ! k)) month
                  (orc k month) = Some p"
      by blast
    from payment_row_reversed [OF row] r
    have id: "fst (selected_loans t ! k) = 150" and m15: "month = 15" by simp_all
    from k have "selected_loans t ! k \<in> set (selected_loans t)" by simp
    then have "selected_loans t ! k \<in> set t" by (simp add: selected_loans_def)
    with id have "(150, snd (selected_loans t ! k)) \<in> set t"
      by (metis prod.collapse)
    with d m have "snd (selected_loans t ! k) = l"
      by (metis eq_key_imp_eq_value)
    with mo m15 y show False by simp
  qed
  then show ?thesis by (simp add: reversed_rows_def filter_empty_conv)
qed


lemma demo_txn_db_tables:
  "200 \<le> length (customers demo_txn_db)" "banks demo_txn_db \<noteq> []" "loans demo_txn_db = []"
proof -
  have d: "demo_txn_db = demo_accounts_db\<lparr> transactions :=
             insert_many (transactions demo_accounts_db) demo_txns \<rparr>"
    using demo_txns_ok(1,2) by (simp add: generate_transactions_def)
  note st = accounts_stage_store [OF demo_accounts_db_ok]
  show "200 \<le> length (customers demo_txn_db)" "banks demo_txn_db \<noteq> []"
    using st by (simp_all add: d)
  show "loans demo_txn_db = []" using st by (simp add: d)
qed

lemma young150_db_ok:
  "generate_loans demo_txn_db 0 young150_loan_orc = Inr young150_db"
  "length (loans young150_db) = 200"
  "distinct (map fst (loans young150_db))"
  "fst (loans young150_db ! 149) = 150"
  "origination_date (snd (loans young150_db ! 149)) = - 450"
  "l_status (snd (loans young150_db ! 149)) \<in> set [''ACTIVE'', ''DEFAULTED'']"
proof -
  note c = demo_txn_db_tables(1) and b = demo_txn_db_tables(2) and l0 = demo_txn_db_tables(3)
  from loan_rows_total [OF c b, of 0 young150_loan_orc] obtain rows where
    r: "loan_rows demo_txn_db 0 young150_loan_orc = Inr rows" and n: "length rows = 200"
    by blast
  then have g: "generate_loans demo_txn_db 0 young150_loan_orc
                = Inr (demo_txn_db\<lparr> loans := zip (rowids 200) rows \<rparr>)"
    by (simp add: generate_loans_def l0 insert_many_empty)
  then show "generate_loans demo_txn_db 0 young150_loan_orc = Inr young150_db"
    by (simp add: young150_db_def)
  from g have t: "loans young150_db = zip (rowids 200) rows" by (simp add: young150_db_def)
  show "length (loans young150_db) = 200" by (simp add: t n length_rowids)
  show "distinct (map fst (loans young150_db))"
    by (simp add: t n length_rowids distinct_rowids)
  have nth: "loans young150_db ! 149 = (150, rows ! 149)"
    by (simp add: t n length_rowids nth_rowids)
  then show "fst (loans young150_db ! 149) = 150" by simp
  from loan_rows_nth [OF r, of 149] obtain cust where
    lr: "loan_row 0 (map fst (banks demo_txn_db)) cust (lo_loan young150_loan_orc 149)
         = Inr (rows ! 149)" by auto
  from loan_row_origination(1) [OF lr]
  show "origination_date (snd (loans young150_db ! 149)) = - 450"
    by (simp add: nth young150_loan_orc_def young150_draws_def young_loan_draw_def
          zero_loan_draw_def date_between_def)
  from loan_row_origination(2) [OF lr]
  show "l_status (snd (loans young150_db ! 149)) \<in> set [''ACTIVE'', ''DEFAULTED'']"
    by (simp only: nth snd_conv)
qed

text \<open>
  Claim C7. The flag is set only for a payment of loan 150 in month 15, so at most one row is
  reversed; but such a payment exists only if the loan is at least sixteen periods of thirty
  days old (and, for a loan of customers 101 to 103, if the payment is not skipped). The
  generator draws the origination date of loan 150 like that of any other loan, anywhere in
  the five years before the run: whenever the draw leaves the loan younger than sixteen
  periods, no payment row is reversed.
\<close>

theorem reversal_missing_for_young_loan:
  assumes "loans s = []" and "generate_loans s today lorc = Inr s'"
    and "1345 < ld_orig (lo_loan lorc 149) mod 1826"
  shows "reversed_rows (payment_rows (loans s') today porc) = []
         \<and> fst (loans s' ! 149) = 150 \<and> length (loans s') = 200
         \<and> l_status (snd (loans s' ! 149)) \<in> set [''ACTIVE'', ''DEFAULTED'']"
proof -
  from assms(2) obtain rows where
    r: "loan_rows s today lorc = Inr rows"
    and s': "s' = s\<lparr> loans := insert_many (loans s) rows \<rparr>"
    by (auto simp: generate_loans_def split: sum.splits)
  from r have n: "length rows = 200"
    by (auto simp: loan_rows_def random_sample_def length_sample_from
             split: sum.splits if_splits dest!: sequence_Inr_length)
  from s' assms(1) have t: "loans s' = zip (rowids 200) rows"
    by (simp add: insert_many_empty n)
  have d: "distinct (map fst (loans s'))" by (simp add: t n length_rowids distinct_rowids)
  have nth: "loans s' ! 149 = (150, rows ! 149)"
    by (simp add: t n length_rowids nth_rowids)
  have "loans s' ! 149 \<in> set (loans s')" by (rule nth_mem) (simp add: t n length_rowids)
  then have m: "(150, rows ! 149) \<in> set (loans s')" by (simp only: nth)
  from loan_rows_nth [OF r, of 149] obtain cust where
    lr: "loan_row today (map fst (banks s)) cust (lo_loan lorc 149) = Inr (rows ! 149)" by auto
  from loan_row_origination(1) [OF lr] assms(3)
  have y: "months_since_origination today (rows ! 149) < 16"
    by (simp add: months_since_origination_def date_between_def)
  from no_reversal_if_young [OF d m y]
  have 1: "reversed_rows (payment_rows (loans s') today porc) = []" .
  from loan_row_origination(2) [OF lr]
  have 4: "l_status (snd (loans s' ! 149)) \<in> set [''ACTIVE'', ''DEFAULTED'']"
    by (simp only: nth snd_conv)
  have 2: "fst (loans s' ! 149) = 150" by (simp add: nth)
  have 3: "length (loans s') = 200" by (simp add: t n length_rowids)
  from 1 2 3 4 show ?thesis by (intro conjI)
qed

theorem reversal_missing_for_young_loan_witness:
  "loans demo_txn_db = []
   \<and> generate_loans demo_txn_db 0 young150_loan_orc = Inr young150_db
   \<and> reversed_rows (payment_rows (loans young150_db) 0 zero_pay_orc) = []
   \<and> fst (loans young150_db ! 149) = 150
   \<and> origination_date (snd (loans young150_db ! 149)) = - 450"
proof -
  note l0 = demo_txn_db_tables(3)
  have h: "1345 < ld_orig (lo_loan young150_loan_orc 149) mod 1826"
    by (simp add: young150_loan_orc_def young150_draws_def young_loan_draw_def)
  from reversal_missing_for_young_loan [OF l0 young150_db_ok(1) h, of zero_pay_orc]
  have 1: "reversed_rows (payment_rows (loans young150_db) 0 zero_pay_orc) = []"
    by (rule conjunct1)
  from l0 young150_db_ok(1) 1 young150_db_ok(4) young150_db_ok(5) show ?thesis
    by (intro conjI)
qed

end
